theory Spec2Isabelle
  imports Complex_Main "HOL-Library.Sublist"
begin

section \<open>Data model of the tracker (class MangaTracker, src/script.js)\<close>

text \<open>
  The tracker keeps one JavaScript object \<open>this.data\<close> with six collections. Each kind of
  object becomes a record whose fields carry the source's names behind a one-letter
  prefix (\<open>m_\<close> for a manga entry, \<open>s_\<close> for a reading session, \<open>b_\<close> for a bookmark,
  \<open>h_\<close> for a history entry), because several objects share the field names \<open>id\<close>,
  \<open>mangaId\<close> and \<open>createdAt\<close>.

  Modelling conventions:
  \<^item> a time stamp is a clock reading in milliseconds since the epoch, an integer within
    the range of \<open>Date\<close> (at most 8.64e15 in absolute value); the source stores its
    ISO-8601 rendering (\<open>new Date().toISOString()\<close>), which orders the same way and is
    read back by \<open>new Date(...)\<close> to the same reading;
  \<^item> \<open>null\<close> and a missing value are \<open>None\<close>;
  \<^item> a string is the list of the bytes of its UTF-8 encoding, which has the same
    equalities and the same substrings as the UTF-16 string of the source;
  \<^item> a number is a double whose value is an integer, or an infinity, or \<open>NaN\<close> (chapter
    counts; the user interface passes results of \<open>parseInt\<close>); arithmetic rounds as the
    source's does;
  \<^item> every read of the clock is an argument of its own: an operation that reads the
    clock three times takes three readings, in the order of the reads. The operations
    that create an object also take \<open>rnd\<close>, the digits that
    \<open>Math.random().toString(36).substr(2)\<close> yields in that call. Readings and digits come
    from the environment;
  \<^item> \<open>String.prototype.toLowerCase\<close> is a parameter of the search;
  \<^item> \<open>saveData\<close> writes a serialised copy of \<open>this.data\<close> to \<open>localStorage\<close> and catches
    every failure; it never changes \<open>this.data\<close>, so it does not appear in the state
    transitions below.
\<close>

subsection \<open>Numbers\<close>

text \<open>
  \<open>fl\<close> rounds a rational to the nearest double (53 significant bits, a tie to the even
  neighbour), for values in the normal range of doubles: \<open>ilog2\<close> is the binary exponent
  of a positive rational, \<open>log2floor\<close> that of a positive natural number.
\<close>

fun log2floor :: "nat \<Rightarrow> nat" where
  "log2floor n = (if n < 2 then 0 else Suc (log2floor (n div 2)))"

definition ilog2 :: "rat \<Rightarrow> int" where
  "ilog2 x =
     (if 1 \<le> x then int (log2floor (nat \<lfloor>x\<rfloor>))
      else - int (Suc (log2floor (nat (\<lceil>1 / x\<rceil> - 1)))))"

definition roundHalfEven :: "rat \<Rightarrow> int" where
  "roundHalfEven x =
     (let f = \<lfloor>x\<rfloor>; r = x - of_int f
      in if r < 1 / 2 then f else if 1 / 2 < r then f + 1 else if even f then f else f + 1)"

definition fl :: "rat \<Rightarrow> rat" where
  "fl x =
     (if x = 0 then 0
      else (let ulp = 2 powi (ilog2 \<bar>x\<bar> - 52) in of_int (roundHalfEven (x / ulp)) * ulp))"

text \<open>
  A number with an integer value, an infinity or \<open>NaN\<close>. \<open>Num n\<close> is the double whose
  value is \<open>n\<close>, so \<open>n\<close> is an integer that a double represents. A sum of two doubles is
  the exact sum rounded; from \<open>2 ^ 1024\<close> on the rounded sum overflows to an infinity.
\<close>

datatype number = Num int | PosInfinity | NegInfinity | NaN

definition numOfRat :: "rat \<Rightarrow> number" where
  "numOfRat x =
     (if 2 ^ 1024 \<le> x then PosInfinity
      else if x \<le> - (2 ^ 1024) then NegInfinity
      else Num \<lfloor>x\<rfloor>)"

fun jsAdd :: "number \<Rightarrow> number \<Rightarrow> number" where
  "jsAdd (Num a) (Num b) = numOfRat (fl (of_int a + of_int b))"
| "jsAdd NaN y = NaN"
| "jsAdd x NaN = NaN"
| "jsAdd PosInfinity NegInfinity = NaN"
| "jsAdd NegInfinity PosInfinity = NaN"
| "jsAdd PosInfinity y = PosInfinity"
| "jsAdd x PosInfinity = PosInfinity"
| "jsAdd NegInfinity y = NegInfinity"
| "jsAdd x NegInfinity = NegInfinity"

text \<open>The comparison \<open>x > 0\<close>.\<close>

fun greaterThanZero :: "number \<Rightarrow> bool" where
  "greaterThanZero (Num n) = (0 < n)"
| "greaterThanZero PosInfinity = True"
| "greaterThanZero NegInfinity = False"
| "greaterThanZero NaN = False"

subsection \<open>Records\<close>

type_synonym time = int

record manga_entry =
  m_id :: string
  m_title :: string
  m_type :: string
  m_status :: string
  m_currentChapter :: number
  m_totalChapters :: "number option"
  m_rating :: "number option"
  m_tags :: "string list"
  m_notes :: string
  m_coverImage :: "string option"
  m_author :: string
  m_startDate :: time
  m_endDate :: "time option"
  m_lastRead :: "time option"
  m_createdAt :: time
  m_updatedAt :: time

record reading_session =
  s_id :: string
  s_mangaId :: "string option"
  s_startTime :: time
  s_endTime :: "time option"
  s_chaptersRead :: number
  s_active :: bool

record bookmark =
  b_id :: string
  b_mangaId :: string
  b_chapterNumber :: number
  b_note :: string
  b_createdAt :: time

record history_entry =
  h_id :: string
  h_mangaId :: string
  h_action :: string
  h_details :: "(string \<times> string) list"
  h_timestamp :: time

record settings_rec =
  dailyGoal :: number
  theme :: string
  notifications :: bool

record tracker_data =
  manga :: "manga_entry list"
  readingSessions :: "reading_session list"
  settings :: settings_rec
  tags :: "string list"
  bookmarks :: "bookmark list"
  history :: "history_entry list"

text \<open>The object \<open>initializeDefaultData\<close> builds when nothing was stored before.\<close>

definition initialData :: tracker_data where
  "initialData =
     \<lparr>manga = [], readingSessions = [],
      settings = \<lparr>dailyGoal = Num 5, theme = ''light'', notifications = True\<rparr>,
      tags = [''Action'', ''Romance'', ''Comedy'', ''Drama'', ''Fantasy'', ''Sci-Fi''],
      bookmarks = [], history = []\<rparr>"

subsection \<open>Array helpers\<close>

text \<open>
  \<open>Array.prototype.findIndex\<close>: the index of the first element that satisfies the
  predicate, \<open>None\<close> for the source's \<open>-1\<close>. \<open>Array.prototype.find\<close> is \<^const>\<open>List.find\<close>.
\<close>

fun findIndex :: "('a \<Rightarrow> bool) \<Rightarrow> 'a list \<Rightarrow> nat option" where
  "findIndex P [] = None"
| "findIndex P (x # xs) = (if P x then Some 0 else map_option Suc (findIndex P xs))"

text \<open>\<open>xs.splice(i, 1)\<close> for an index inside the array: what remains of \<open>xs\<close>.\<close>

definition splice1 :: "nat \<Rightarrow> 'a list \<Rightarrow> 'a list" where
  "splice1 i xs = take i xs @ drop (Suc i) xs"

subsection \<open>Identifiers\<close>

text \<open>
  \<open>generateId\<close> returns \<open>Date.now().toString(36) + Math.random().toString(36).substr(2)\<close>.
  \<open>toString36\<close> is \<open>Number.prototype.toString(36)\<close> on an integer.
\<close>

definition digit36 :: "nat \<Rightarrow> char" where
  "digit36 k = ''0123456789abcdefghijklmnopqrstuvwxyz'' ! k"

fun digits36 :: "nat \<Rightarrow> string" where
  "digits36 n = (if n < 36 then [digit36 n] else digits36 (n div 36) @ [digit36 (n mod 36)])"

definition toString36 :: "int \<Rightarrow> string" where
  "toString36 n = (if n < 0 then CHR ''-'' # digits36 (nat (- n)) else digits36 (nat n))"

definition generateId :: "time \<Rightarrow> string \<Rightarrow> string" where
  "generateId now rnd = toString36 now @ rnd"

subsection \<open>Truthiness and the default operator\<close>

text \<open>
  \<open>x || d\<close> yields \<open>d\<close> when \<open>x\<close> is falsy: missing, \<open>null\<close>, the empty string, the number
  zero or \<open>NaN\<close>. An array and a non-empty string (so every time stamp) are truthy.
\<close>

definition truthyStr :: "string \<Rightarrow> bool" where
  "truthyStr s = (s \<noteq> [])"

fun truthyNum :: "number \<Rightarrow> bool" where
  "truthyNum (Num n) = (n \<noteq> 0)"
| "truthyNum NaN = False"
| "truthyNum PosInfinity = True"
| "truthyNum NegInfinity = True"

definition orElse :: "('a \<Rightarrow> bool) \<Rightarrow> 'a option \<Rightarrow> 'a \<Rightarrow> 'a" where
  "orElse truthy x d = (case x of Some v \<Rightarrow> if truthy v then v else d | None \<Rightarrow> d)"

definition orNull :: "('a \<Rightarrow> bool) \<Rightarrow> 'a option \<Rightarrow> 'a option" where
  "orNull truthy x = (case x of Some v \<Rightarrow> if truthy v then Some v else None | None \<Rightarrow> None)"

subsection \<open>Manga operations\<close>

text \<open>
  The argument of \<open>addManga\<close>: every property but \<open>title\<close> may be missing (\<open>None\<close>);
  \<open>title\<close> is copied as it is. The argument of \<open>updateManga\<close> may carry any property of
  a manga entry, \<open>id\<close> and \<open>updatedAt\<close> included; a property that is \<open>null\<close> in an entry
  can be set to \<open>null\<close> (\<open>Some None\<close>).
\<close>

record manga_data =
  d_title :: string
  d_type :: "string option"
  d_status :: "string option"
  d_currentChapter :: "number option"
  d_totalChapters :: "number option"
  d_rating :: "number option"
  d_tags :: "string list option"
  d_notes :: "string option"
  d_coverImage :: "string option"
  d_author :: "string option"
  d_startDate :: "time option"
  d_endDate :: "time option"
  d_lastRead :: "time option"

record manga_updates =
  u_id :: "string option"
  u_title :: "string option"
  u_type :: "string option"
  u_status :: "string option"
  u_currentChapter :: "number option"
  u_totalChapters :: "number option option"
  u_rating :: "number option option"
  u_tags :: "string list option"
  u_notes :: "string option"
  u_coverImage :: "string option option"
  u_author :: "string option"
  u_startDate :: "time option"
  u_endDate :: "time option option"
  u_lastRead :: "time option option"
  u_createdAt :: "time option"
  u_updatedAt :: "time option"

definition noUpdates :: manga_updates where
  "noUpdates =
     \<lparr>u_id = None, u_title = None, u_type = None, u_status = None, u_currentChapter = None,
      u_totalChapters = None, u_rating = None, u_tags = None, u_notes = None,
      u_coverImage = None, u_author = None, u_startDate = None, u_endDate = None,
      u_lastRead = None, u_createdAt = None, u_updatedAt = None\<rparr>"

text \<open>
  \<open>addManga\<close> reads the clock four times: \<open>tId\<close> in \<open>generateId\<close>, \<open>tStart\<close> for the
  default of \<open>startDate\<close>, \<open>tCreated\<close> and \<open>tUpdated\<close> for the two stamps.
\<close>

definition addManga ::
  "time \<Rightarrow> string \<Rightarrow> time \<Rightarrow> time \<Rightarrow> time \<Rightarrow> manga_data \<Rightarrow> tracker_data
     \<Rightarrow> manga_entry \<times> tracker_data" where
  "addManga tId rnd tStart tCreated tUpdated mangaData d =
     (let entry =
        \<lparr>m_id = generateId tId rnd,
         m_title = d_title mangaData,
         m_type = orElse truthyStr (d_type mangaData) ''manga'',
         m_status = orElse truthyStr (d_status mangaData) ''reading'',
         m_currentChapter = orElse truthyNum (d_currentChapter mangaData) (Num 0),
         m_totalChapters = orNull truthyNum (d_totalChapters mangaData),
         m_rating = orNull truthyNum (d_rating mangaData),
         m_tags = orElse (\<lambda>_. True) (d_tags mangaData) [],
         m_notes = orElse truthyStr (d_notes mangaData) '''',
         m_coverImage = orNull truthyStr (d_coverImage mangaData),
         m_author = orElse truthyStr (d_author mangaData) '''',
         m_startDate = orElse (\<lambda>_. True) (d_startDate mangaData) tStart,
         m_endDate = orNull (\<lambda>_. True) (d_endDate mangaData),
         m_lastRead = orNull (\<lambda>_. True) (d_lastRead mangaData),
         m_createdAt = tCreated,
         m_updatedAt = tUpdated\<rparr>
      in (entry, d\<lparr>manga := manga d @ [entry]\<rparr>))"

text \<open>
  The object spread \<open>{...old, ...updates, updatedAt: now}\<close>: a property of \<open>updates\<close>
  replaces the old one, and \<open>updatedAt\<close> is set last, over whatever \<open>updates\<close> carries.
\<close>

definition spread :: "'a \<Rightarrow> 'a option \<Rightarrow> 'a" where
  "spread old new = (case new of Some v \<Rightarrow> v | None \<Rightarrow> old)"

definition mergeManga :: "time \<Rightarrow> manga_entry \<Rightarrow> manga_updates \<Rightarrow> manga_entry" where
  "mergeManga now old updates =
     \<lparr>m_id = spread (m_id old) (u_id updates),
      m_title = spread (m_title old) (u_title updates),
      m_type = spread (m_type old) (u_type updates),
      m_status = spread (m_status old) (u_status updates),
      m_currentChapter = spread (m_currentChapter old) (u_currentChapter updates),
      m_totalChapters = spread (m_totalChapters old) (u_totalChapters updates),
      m_rating = spread (m_rating old) (u_rating updates),
      m_tags = spread (m_tags old) (u_tags updates),
      m_notes = spread (m_notes old) (u_notes updates),
      m_coverImage = spread (m_coverImage old) (u_coverImage updates),
      m_author = spread (m_author old) (u_author updates),
      m_startDate = spread (m_startDate old) (u_startDate updates),
      m_endDate = spread (m_endDate old) (u_endDate updates),
      m_lastRead = spread (m_lastRead old) (u_lastRead updates),
      m_createdAt = spread (m_createdAt old) (u_createdAt updates),
      m_updatedAt = now\<rparr>"

definition updateManga ::
  "time \<Rightarrow> string \<Rightarrow> manga_updates \<Rightarrow> tracker_data \<Rightarrow> manga_entry option \<times> tracker_data" where
  "updateManga now ident updates d =
     (case findIndex (\<lambda>m. m_id m = ident) (manga d) of
        Some index \<Rightarrow>
          (let merged = mergeManga now (manga d ! index) updates
           in (Some merged, d\<lparr>manga := (manga d)[index := merged]\<rparr>))
      | None \<Rightarrow> (None, d))"

definition getManga :: "string \<Rightarrow> tracker_data \<Rightarrow> manga_entry option" where
  "getManga ident d = find (\<lambda>m. m_id m = ident) (manga d)"

definition getAllManga :: "tracker_data \<Rightarrow> manga_entry list" where
  "getAllManga d = manga d"

definition deleteManga :: "string \<Rightarrow> tracker_data \<Rightarrow> manga_entry option \<times> tracker_data" where
  "deleteManga ident d =
     (case findIndex (\<lambda>m. m_id m = ident) (manga d) of
        Some index \<Rightarrow> (Some (manga d ! index), d\<lparr>manga := splice1 index (manga d)\<rparr>)
      | None \<Rightarrow> (None, d))"

subsection \<open>Reading sessions\<close>

text \<open>
  \<open>startReadingSession\<close> reads the clock in \<open>generateId\<close> (\<open>tId\<close>) and for \<open>startTime\<close>
  (\<open>tStart\<close>).
\<close>

definition startReadingSession ::
  "time \<Rightarrow> string \<Rightarrow> time \<Rightarrow> string option \<Rightarrow> tracker_data
     \<Rightarrow> reading_session \<times> tracker_data" where
  "startReadingSession tId rnd tStart mangaId d =
     (let session =
        \<lparr>s_id = generateId tId rnd, s_mangaId = mangaId, s_startTime = tStart,
         s_endTime = None, s_chaptersRead = Num 0, s_active = True\<rparr>
      in (session, d\<lparr>readingSessions := readingSessions d @ [session]\<rparr>))"

text \<open>
  \<open>endReadingSession\<close> mutates the first session with the given id in place, then, when
  the session's \<open>mangaId\<close> is truthy and \<open>chaptersRead > 0\<close>, looks the manga up and
  updates it through \<open>updateManga\<close>. It reads the clock for \<open>endTime\<close> (\<open>tEnd\<close>) and for
  \<open>lastRead\<close> (\<open>tRead\<close>), and \<open>updateManga\<close> reads it for \<open>updatedAt\<close> (\<open>tUpdated\<close>). The
  caller passes \<open>chaptersRead\<close> (the source's default for a missing argument is 0).
\<close>

definition progressUpdates :: "time \<Rightarrow> manga_entry \<Rightarrow> number \<Rightarrow> manga_updates" where
  "progressUpdates tRead m chaptersRead =
     noUpdates\<lparr>u_currentChapter := Some (jsAdd (m_currentChapter m) chaptersRead),
               u_lastRead := Some (Some tRead)\<rparr>"

definition endReadingSession ::
  "time \<Rightarrow> time \<Rightarrow> time \<Rightarrow> string \<Rightarrow> number \<Rightarrow> tracker_data
     \<Rightarrow> reading_session option \<times> tracker_data" where
  "endReadingSession tEnd tRead tUpdated sessionId chaptersRead d =
     (case findIndex (\<lambda>s. s_id s = sessionId) (readingSessions d) of
        None \<Rightarrow> (None, d)
      | Some i \<Rightarrow>
          (let session = (readingSessions d ! i)
                 \<lparr>s_endTime := Some tEnd, s_chaptersRead := chaptersRead, s_active := False\<rparr>;
               d1 = d\<lparr>readingSessions := (readingSessions d)[i := session]\<rparr>;
               d2 = (case s_mangaId session of
                       None \<Rightarrow> d1
                     | Some mangaId \<Rightarrow>
                         if truthyStr mangaId \<and> greaterThanZero chaptersRead then
                           (case getManga mangaId d1 of
                              None \<Rightarrow> d1
                            | Some m \<Rightarrow>
                                snd (updateManga tUpdated (m_id m)
                                       (progressUpdates tRead m chaptersRead) d1))
                         else d1)
           in (Some session, d2)))"

definition getActiveSession :: "tracker_data \<Rightarrow> reading_session option" where
  "getActiveSession d = find s_active (readingSessions d)"

text \<open>
  What \<open>endReadingSession\<close> assigns to the session it closes, and what its call of
  \<open>updateManga\<close> makes of the manga entry: names for stating the results.
\<close>

definition closeSession :: "time \<Rightarrow> number \<Rightarrow> reading_session \<Rightarrow> reading_session" where
  "closeSession tEnd chaptersRead session =
     session\<lparr>s_endTime := Some tEnd, s_chaptersRead := chaptersRead, s_active := False\<rparr>"

definition advance :: "time \<Rightarrow> time \<Rightarrow> number \<Rightarrow> manga_entry \<Rightarrow> manga_entry" where
  "advance tRead tUpdated chaptersRead m =
     m\<lparr>m_currentChapter := jsAdd (m_currentChapter m) chaptersRead, m_lastRead := Some tRead,
       m_updatedAt := tUpdated\<rparr>"

subsection \<open>Bookmarks and history\<close>

text \<open>
  \<open>addBookmark\<close> and \<open>addToHistory\<close> read the clock in \<open>generateId\<close> (\<open>tId\<close>) and for the
  stamp of the new object.
\<close>

definition addBookmark ::
  "time \<Rightarrow> string \<Rightarrow> time \<Rightarrow> string \<Rightarrow> number \<Rightarrow> string \<Rightarrow> tracker_data
     \<Rightarrow> bookmark \<times> tracker_data" where
  "addBookmark tId rnd tCreated mangaId chapterNumber note d =
     (let b = \<lparr>b_id = generateId tId rnd, b_mangaId = mangaId,
               b_chapterNumber = chapterNumber, b_note = note, b_createdAt = tCreated\<rparr>
      in (b, d\<lparr>bookmarks := bookmarks d @ [b]\<rparr>))"

definition removeBookmark :: "string \<Rightarrow> tracker_data \<Rightarrow> bookmark option \<times> tracker_data" where
  "removeBookmark ident d =
     (case findIndex (\<lambda>b. b_id b = ident) (bookmarks d) of
        Some index \<Rightarrow> (Some (bookmarks d ! index), d\<lparr>bookmarks := splice1 index (bookmarks d)\<rparr>)
      | None \<Rightarrow> (None, d))"

text \<open>
  \<open>addToHistory\<close>: \<open>unshift\<close> puts the entry at index 0; when the array has grown beyond
  100 entries it is replaced by \<open>slice(0, 100)\<close>.
\<close>

definition historyEntry ::
  "time \<Rightarrow> string \<Rightarrow> time \<Rightarrow> string \<Rightarrow> string \<Rightarrow> (string \<times> string) list \<Rightarrow> history_entry" where
  "historyEntry tId rnd tStamp mangaId action details =
     \<lparr>h_id = generateId tId rnd, h_mangaId = mangaId, h_action = action,
      h_details = details, h_timestamp = tStamp\<rparr>"

definition addToHistory ::
  "time \<Rightarrow> string \<Rightarrow> time \<Rightarrow> string \<Rightarrow> string \<Rightarrow> (string \<times> string) list \<Rightarrow> tracker_data
     \<Rightarrow> history_entry \<times> tracker_data" where
  "addToHistory tId rnd tStamp mangaId action details d =
     (let e = historyEntry tId rnd tStamp mangaId action details;
          h = e # history d;
          h' = (if length h > 100 then take 100 h else h)
      in (e, d\<lparr>history := h'\<rparr>))"

definition getRecentActivity :: "nat \<Rightarrow> tracker_data \<Rightarrow> history_entry list" where
  "getRecentActivity limit d = take limit (history d)"

subsection \<open>Repeated history recording\<close>

text \<open>
  A call of \<open>addToHistory\<close> is given by its two clock readings, its random digits and its
  three arguments; \<open>recordAll\<close> performs a list of calls in order, oldest first.
\<close>

type_synonym history_call =
  "time \<times> string \<times> time \<times> string \<times> string \<times> (string \<times> string) list"

definition entryOf :: "history_call \<Rightarrow> history_entry" where
  "entryOf c = (case c of (tId, rnd, tStamp, mangaId, action, details) \<Rightarrow>
                  historyEntry tId rnd tStamp mangaId action details)"

fun recordAll :: "history_call list \<Rightarrow> tracker_data \<Rightarrow> tracker_data" where
  "recordAll [] d = d"
| "recordAll (c # cs) d =
     (case c of (tId, rnd, tStamp, mangaId, action, details) \<Rightarrow>
        recordAll cs (snd (addToHistory tId rnd tStamp mangaId action details d)))"

subsection \<open>Statistics\<close>

text \<open>
  The calendar arithmetic of the platform's \<open>Date\<close> object, in the local time zone, is a
  parameter: \<open>toDateString\<close> renders the calendar day of a clock reading, \<open>weekBefore\<close> is
  \<open>setDate(getDate() - 7)\<close> and \<open>monthBefore\<close> is \<open>setMonth(getMonth() - 1)\<close>.
\<close>

record calendar =
  toDateString :: "time \<Rightarrow> string"
  weekBefore :: "time \<Rightarrow> time"
  monthBefore :: "time \<Rightarrow> time"

record statistics =
  totalManga :: nat
  currentlyReading :: nat
  completed :: nat
  onHold :: nat
  dropped :: nat
  planToRead :: nat
  totalChaptersRead :: number
  totalReadingSessions :: nat
  averageSessionTime :: int
  dailyProgress :: number
  weeklyProgress :: number
  monthlyProgress :: number

text \<open>
  \<open>Math.round\<close> of a double: the nearest integer, a half rounded towards plus infinity.
\<close>

definition mathRound :: "rat \<Rightarrow> int" where
  "mathRound x = \<lfloor>x + 1 / 2\<rfloor>"

text \<open>
  The reducer of \<open>calculateAverageSessionTime\<close> adds \<open>end - start\<close> for a session whose
  \<open>startTime\<close> and \<open>endTime\<close> are both truthy; a start time is always a time stamp. The
  difference, the sum and the three quotients are each rounded to a double.
\<close>

definition addSessionTime :: "rat \<Rightarrow> reading_session \<Rightarrow> rat" where
  "addSessionTime acc session =
     (case s_endTime session of
        Some endTime \<Rightarrow> fl (acc + fl (of_int endTime - of_int (s_startTime session)))
      | None \<Rightarrow> acc)"

definition calculateAverageSessionTime :: "reading_session list \<Rightarrow> int" where
  "calculateAverageSessionTime sessions =
     (if length sessions = 0 then 0
      else (let totalTime = foldl addSessionTime 0 sessions
            in mathRound (fl (fl (fl (totalTime / of_nat (length sessions)) / 1000) / 60))))"

text \<open>The three rounded quotients of \<open>calculateAverageSessionTime\<close>: a name for them.\<close>

definition avgDouble :: "rat \<Rightarrow> nat \<Rightarrow> rat" where
  "avgDouble totalTime n = fl (fl (fl (totalTime / of_nat n) / 1000) / 60)"

definition sumChaptersRead :: "reading_session list \<Rightarrow> number" where
  "sumChaptersRead sessions = foldl (\<lambda>acc s. jsAdd acc (s_chaptersRead s)) (Num 0) sessions"

definition getDailyProgress :: "calendar \<Rightarrow> time \<Rightarrow> tracker_data \<Rightarrow> number" where
  "getDailyProgress cal now d =
     (let today = toDateString cal now;
          todaySessions = filter (\<lambda>s. \<not> s_active s \<and>
            (case s_endTime s of Some e \<Rightarrow> toDateString cal e = today | None \<Rightarrow> False))
            (readingSessions d)
      in sumChaptersRead todaySessions)"

definition getWeeklyProgress :: "calendar \<Rightarrow> time \<Rightarrow> tracker_data \<Rightarrow> number" where
  "getWeeklyProgress cal now d =
     (let oneWeekAgo = weekBefore cal now;
          weekSessions = filter (\<lambda>s. \<not> s_active s \<and>
            (case s_endTime s of Some e \<Rightarrow> e \<ge> oneWeekAgo | None \<Rightarrow> False))
            (readingSessions d)
      in sumChaptersRead weekSessions)"

definition getMonthlyProgress :: "calendar \<Rightarrow> time \<Rightarrow> tracker_data \<Rightarrow> number" where
  "getMonthlyProgress cal now d =
     (let oneMonthAgo = monthBefore cal now;
          monthSessions = filter (\<lambda>s. \<not> s_active s \<and>
            (case s_endTime s of Some e \<Rightarrow> e \<ge> oneMonthAgo | None \<Rightarrow> False))
            (readingSessions d)
      in sumChaptersRead monthSessions)"

definition countStatus :: "string \<Rightarrow> manga_entry list \<Rightarrow> nat" where
  "countStatus st ms = length (filter (\<lambda>m. m_status m = st) ms)"

text \<open>
  \<open>getStatistics\<close> reads the clock once in each of the three progress functions
  (\<open>tDay\<close>, \<open>tWeek\<close>, \<open>tMonth\<close>).
\<close>

definition getStatistics ::
  "calendar \<Rightarrow> time \<Rightarrow> time \<Rightarrow> time \<Rightarrow> tracker_data \<Rightarrow> statistics" where
  "getStatistics cal tDay tWeek tMonth d =
     (let sessions = filter (\<lambda>s. \<not> s_active s) (readingSessions d)
      in \<lparr>totalManga = length (manga d),
          currentlyReading = countStatus ''reading'' (manga d),
          completed = countStatus ''completed'' (manga d),
          onHold = countStatus ''on-hold'' (manga d),
          dropped = countStatus ''dropped'' (manga d),
          planToRead = countStatus ''plan-to-read'' (manga d),
          totalChaptersRead = foldl (\<lambda>acc m. jsAdd acc (m_currentChapter m)) (Num 0) (manga d),
          totalReadingSessions = length sessions,
          averageSessionTime = calculateAverageSessionTime sessions,
          dailyProgress = getDailyProgress cal tDay d,
          weeklyProgress = getWeeklyProgress cal tWeek d,
          monthlyProgress = getMonthlyProgress cal tMonth d\<rparr>)"

text \<open>
  The length of a session in exact arithmetic, and the average as the exact quotient:
  names for stating the result.
\<close>

definition sessionTime :: "reading_session \<Rightarrow> int" where
  "sessionTime session =
     (case s_endTime session of Some endTime \<Rightarrow> endTime - s_startTime session | None \<Rightarrow> 0)"

definition exactAverageMinutes :: "reading_session list \<Rightarrow> rat" where
  "exactAverageMinutes sessions =
     of_int (sum_list (map sessionTime sessions)) / of_nat (length sessions) / 60000"

subsection \<open>Search\<close>









subsection \<open>Sequences of store operations\<close>

text \<open>
  The operations of the tracker that change \<open>this.data\<close>, each with the clock readings and
  random digits of its call, and a run of them from a given store.
\<close>

datatype operation =
    AddManga time string time time time manga_data
  | UpdateManga time string manga_updates
  | DeleteManga string
  | StartReadingSession time string time "string option"
  | EndReadingSession time time time string number
  | AddBookmark time string time string number string
  | RemoveBookmark string
  | AddToHistory time string time string string "(string \<times> string) list"

fun perform :: "operation \<Rightarrow> tracker_data \<Rightarrow> tracker_data" where
  "perform (AddManga tId rnd tStart tCreated tUpdated mangaData) d =
     snd (addManga tId rnd tStart tCreated tUpdated mangaData d)"
| "perform (UpdateManga now ident updates) d = snd (updateManga now ident updates d)"
| "perform (DeleteManga ident) d = snd (deleteManga ident d)"
| "perform (StartReadingSession tId rnd tStart mangaId) d =
     snd (startReadingSession tId rnd tStart mangaId d)"
| "perform (EndReadingSession tEnd tRead tUpdated sessionId chaptersRead) d =
     snd (endReadingSession tEnd tRead tUpdated sessionId chaptersRead d)"
| "perform (AddBookmark tId rnd tCreated mangaId chapterNumber note) d =
     snd (addBookmark tId rnd tCreated mangaId chapterNumber note d)"
| "perform (RemoveBookmark ident) d = snd (removeBookmark ident d)"
| "perform (AddToHistory tId rnd tStamp mangaId action details) d =
     snd (addToHistory tId rnd tStamp mangaId action details d)"

fun performAll :: "operation list \<Rightarrow> tracker_data \<Rightarrow> tracker_data" where
  "performAll [] d = d"
| "performAll (x # xs) d = performAll xs (perform x d)"

definition activeSessions :: "tracker_data \<Rightarrow> reading_session list" where
  "activeSessions d = filter s_active (readingSessions d)"

text \<open>
  A run is guarded when each \<open>startReadingSession\<close> in it is called on a store in which
  \<open>getActiveSession\<close> finds nothing.
\<close>

fun isStart :: "operation \<Rightarrow> bool" where
  "isStart (StartReadingSession tId rnd tStart mangaId) = True"
| "isStart other = False"

fun guarded :: "operation list \<Rightarrow> tracker_data \<Rightarrow> bool" where
  "guarded [] d = True"
| "guarded (x # xs) d =
     ((if isStart x then getActiveSession d = None else True) \<and> guarded xs (perform x d))"

subsection \<open>Sample data\<close>

text \<open>Concrete entries and stores, used where a property is evaluated on an input.\<close>

definition sampleManga :: "string \<Rightarrow> string \<Rightarrow> string \<Rightarrow> manga_entry" where
  "sampleManga ident title status =
     \<lparr>m_id = ident, m_title = title, m_type = ''manga'', m_status = status,
      m_currentChapter = Num 0, m_totalChapters = None, m_rating = None, m_tags = [],
      m_notes = '''', m_coverImage = None, m_author = '''', m_startDate = 0,
      m_endDate = None, m_lastRead = None, m_createdAt = 0, m_updatedAt = 0\<rparr>"

definition sampleData :: "string \<Rightarrow> manga_data" where
  "sampleData title =
     \<lparr>d_title = title, d_type = None, d_status = None, d_currentChapter = None,
      d_totalChapters = None, d_rating = None, d_tags = None, d_notes = None,
      d_coverImage = None, d_author = None, d_startDate = None, d_endDate = None,
      d_lastRead = None\<rparr>"

definition calls101 :: "history_call list" where
  "calls101 = map (\<lambda>k. (int k, ''r'', int k, ''m'', ''read'', [])) [0..<101]"

definition oneStore :: tracker_data where
  "oneStore = initialData\<lparr>manga := [sampleManga ''a'' ''One'' ''reading'']\<rparr>"

text \<open>
  Two entries are added, then the second is given the id of the first through
  \<open>updateManga\<close>: the store holds two entries with one id.
\<close>

definition dupStore :: tracker_data where
  "dupStore =
     snd (updateManga 3 ''2y'' (noUpdates\<lparr>u_id := Some ''1x''\<rparr>)
       (snd (addManga 2 ''y'' 2 2 2 (sampleData ''Two'')
         (snd (addManga 1 ''x'' 1 1 1 (sampleData ''One'') initialData)))))"

text \<open>One entry added at clock reading 5 to the initial store; its id is \<open>5x\<close>.\<close>

definition addedEntry :: manga_entry where
  "addedEntry =
     (sampleManga ''5x'' ''One'' ''reading'')\<lparr>m_startDate := 5, m_createdAt := 5, m_updatedAt := 5\<rparr>"

definition addedStore :: tracker_data where
  "addedStore = snd (addManga 5 ''x'' 5 5 5 (sampleData ''One'') initialData)"

text \<open>A session bound to that entry, started at clock reading 7; its id is \<open>7s\<close>.\<close>

definition sessionStore :: tracker_data where
  "sessionStore = snd (startReadingSession 7 ''s'' 7 (Some ''5x'') addedStore)"

definition startedSession :: reading_session where
  "startedSession =
     \<lparr>s_id = ''7s'', s_mangaId = Some ''5x'', s_startTime = 7, s_endTime = None,
      s_chaptersRead = Num 0, s_active = True\<rparr>"

text \<open>
  Two sessions started with the same clock reading and random digits, so with one id:
  the first bound to no entry, the second bound to the entry \<open>5x\<close>.
\<close>

definition twinSessionStore :: tracker_data where
  "twinSessionStore =
     snd (startReadingSession 7 ''s'' 7 (Some ''5x'')
       (snd (startReadingSession 7 ''s'' 7 None addedStore)))"

text \<open>
  The entry is given the empty string as its id through \<open>updateManga\<close>, and a session is
  bound to it.
\<close>

definition emptyIdStore :: tracker_data where
  "emptyIdStore =
     snd (startReadingSession 7 ''s'' 7 (Some '''')
       (snd (updateManga 6 ''5x'' (noUpdates\<lparr>u_id := Some ''''\<rparr>) addedStore)))"

text \<open>An entry whose current chapter is \<open>2 ^ 53\<close>, and a session bound to it.\<close>

definition bigEntry :: manga_entry where
  "bigEntry = addedEntry\<lparr>m_currentChapter := Num 9007199254740992\<rparr>"

definition bigStore :: tracker_data where
  "bigStore =
     snd (startReadingSession 7 ''s'' 7 (Some ''5x'')
       (snd (addManga 5 ''x'' 5 5 5
              ((sampleData ''One'')\<lparr>d_currentChapter := Some (Num 9007199254740992)\<rparr>)
              initialData)))"

text \<open>
  Two runs from the initial store: two sessions started one after the other, and a run in
  which a session is started, ended and followed by another.
\<close>

definition twoStarts :: "operation list" where
  "twoStarts = [StartReadingSession 1 ''a'' 1 None, StartReadingSession 2 ''b'' 2 None]"

definition timerRun :: "operation list" where
  "timerRun =
     [AddManga 5 ''x'' 5 5 5 (sampleData ''One''),
      StartReadingSession 7 ''s'' 7 (Some ''5x''),
      EndReadingSession 8 8 8 ''7s'' (Num 3),
      AddToHistory 8 ''h'' 8 ''5x'' ''read'' [],
      StartReadingSession 9 ''t'' 9 None]"












text \<open>
  A calendar that renders the day number and counts a week as 7 and a month as 30 days;
  a closed session that lasted 90 seconds; a closed session that spans nearly the whole
  range of \<open>Date\<close>; the statistics with every count zero.
\<close>

definition sampleCalendar :: calendar where
  "sampleCalendar =
     \<lparr>toDateString = (\<lambda>t. toString36 (t div 86400000)),
      weekBefore = (\<lambda>t. t - 604800000),
      monthBefore = (\<lambda>t. t - 2592000000)\<rparr>"

definition ninetySeconds :: reading_session where
  "ninetySeconds =
     \<lparr>s_id = ''7s'', s_mangaId = None, s_startTime = 0, s_endTime = Some 90000,
      s_chaptersRead = Num 1, s_active = False\<rparr>"

definition longSession :: reading_session where
  "longSession =
     \<lparr>s_id = ''7s'', s_mangaId = None, s_startTime = - 8640000000000000,
      s_endTime = Some 8639940000029999, s_chaptersRead = Num 1, s_active = False\<rparr>"

definition zeroStatistics :: statistics where
  "zeroStatistics =
     \<lparr>totalManga = 0, currentlyReading = 0, completed = 0, onHold = 0, dropped = 0,
      planToRead = 0, totalChaptersRead = Num 0, totalReadingSessions = 0,
      averageSessionTime = 0, dailyProgress = Num 0, weeklyProgress = Num 0,
      monthlyProgress = Num 0\<rparr>"

section \<open>Properties\<close>

declare digits36.simps [simp del]
declare log2floor.simps [simp del]
declare jsAdd.simps [simp del]

subsection \<open>Rounding to a double\<close>

lemma log2floor_bounds: "0 < n \<Longrightarrow> 2 ^ log2floor n \<le> n \<and> n < 2 ^ Suc (log2floor n)"
proof (induction n rule: log2floor.induct)
  case (1 n)
  show ?case
  proof (cases "n < 2")
    case True
    with "1.prems" have "n = 1" by simp
    then show ?thesis by (simp add: log2floor.simps)
  next
    case False
    then have pos: "0 < n div 2" by simp
    from "1.IH" [OF False pos] have a: "2 ^ log2floor (n div 2) \<le> n div 2"
      and b: "n div 2 < 2 ^ Suc (log2floor (n div 2))" by simp_all
    have l: "log2floor n = Suc (log2floor (n div 2))"
      using False by (subst log2floor.simps) simp
    from a have "2 * 2 ^ log2floor (n div 2) \<le> n" by linarith
    moreover from b have "n < 2 * 2 ^ Suc (log2floor (n div 2))" by linarith
    ultimately show ?thesis by (simp add: l)
  qed
qed

lemma ilog2_bounds:
  assumes "0 < x"
  shows "2 powi ilog2 x \<le> x" and "x < 2 powi (ilog2 x + 1)"
proof -
  have "2 powi ilog2 x \<le> x \<and> x < 2 powi (ilog2 x + 1)"
  proof (cases "1 \<le> x")
    case True
    let ?m = "nat \<lfloor>x\<rfloor>"
    let ?k = "log2floor ?m"
    from True have m: "0 < ?m" by simp
    from log2floor_bounds [OF m] have a: "2 ^ ?k \<le> ?m" and b: "?m < 2 ^ Suc ?k" by simp_all
    have mx: "of_nat ?m \<le> x" using True by simp
    have xm: "x < of_nat ?m + 1" using True by simp linarith
    from a have "(2::rat) ^ ?k \<le> of_nat ?m"
      by (metis of_nat_le_iff of_nat_numeral of_nat_power)
    with mx have lo: "(2::rat) ^ ?k \<le> x" by linarith
    from b have "?m + 1 \<le> 2 ^ Suc ?k" by simp
    then have "(of_nat (?m + 1) :: rat) \<le> of_nat (2 ^ Suc ?k)"
      by (simp only: of_nat_le_iff)
    then have "(of_nat ?m :: rat) + 1 \<le> 2 ^ Suc ?k" by simp
    with xm have hi: "x < (2::rat) ^ Suc ?k" by linarith
    have e: "ilog2 x = int ?k" using True by (simp add: ilog2_def)
    have "int ?k + 1 = int (Suc ?k)" by simp
    then have "(2::rat) powi (int ?k + 1) = 2 ^ Suc ?k"
      by (simp only: power_int_of_nat)
    with lo hi show ?thesis by (simp add: e)
  next
    case False
    let ?y = "1 / x"
    let ?m = "nat (\<lceil>?y\<rceil> - 1)"
    let ?k = "log2floor ?m"
    from False assms have y1: "1 < ?y" by simp
    have "?y \<le> of_int \<lceil>?y\<rceil>" by (rule le_of_int_ceiling)
    with y1 have "(of_int 1 :: rat) < of_int \<lceil>?y\<rceil>" by simp
    then have "1 < \<lceil>?y\<rceil>" by (simp only: of_int_less_iff)
    then have c2: "2 \<le> \<lceil>?y\<rceil>" by linarith
    then have m: "0 < ?m" by linarith
    from log2floor_bounds [OF m] have a: "2 ^ ?k \<le> ?m" and b: "?m < 2 ^ Suc ?k" by simp_all
    have my: "of_nat ?m < ?y"
    proof -
      have "of_int (\<lceil>?y\<rceil> - 1) < ?y" by linarith
      moreover have "(of_nat ?m :: rat) = of_int (\<lceil>?y\<rceil> - 1)"
        using c2 by (intro of_nat_nat) linarith
      ultimately show ?thesis by simp
    qed
    have ym: "?y \<le> of_nat ?m + 1"
    proof -
      have "?y \<le> of_int \<lceil>?y\<rceil>" by linarith
      moreover have "(of_nat ?m :: rat) = of_int (\<lceil>?y\<rceil> - 1)"
        using c2 by (intro of_nat_nat) linarith
      ultimately show ?thesis by simp
    qed
    from a have "(2::rat) ^ ?k \<le> of_nat ?m"
      by (metis of_nat_le_iff of_nat_numeral of_nat_power)
    with my have lo: "(2::rat) ^ ?k < ?y" by linarith
    from b have "?m + 1 \<le> 2 ^ Suc ?k" by simp
    then have "(of_nat (?m + 1) :: rat) \<le> of_nat (2 ^ Suc ?k)"
      by (simp only: of_nat_le_iff)
    then have "(of_nat ?m :: rat) + 1 \<le> 2 ^ Suc ?k" by simp
    with ym have hi: "?y \<le> (2::rat) ^ Suc ?k" by linarith
    have e: "ilog2 x = - int (Suc ?k)" using False by (simp add: ilog2_def)
    have p1: "(2::rat) powi (- int (Suc ?k)) = 1 / 2 ^ Suc ?k"
      using power_int_minus_divide [of "2::rat" "int (Suc ?k)"]
      by (simp only: power_int_of_nat)
    have p2: "(2::rat) powi (- int (Suc ?k) + 1) = 1 / 2 ^ ?k"
    proof -
      have "- int (Suc ?k) + 1 = - int ?k" by simp
      then show ?thesis
        using power_int_minus_divide [of "2::rat" "int ?k"]
        by (simp only: power_int_of_nat)
    qed
    have "1 / 2 ^ Suc ?k \<le> x"
    proof -
      from hi assms have "1 \<le> x * 2 ^ Suc ?k" by (simp add: field_simps)
      then show ?thesis by (simp add: field_simps)
    qed
    moreover have "x < 1 / 2 ^ ?k"
    proof -
      from lo assms have "x * 2 ^ ?k < 1" by (simp add: field_simps)
      then show ?thesis by (simp add: field_simps)
    qed
    ultimately show ?thesis unfolding e p1 p2 by simp
  qed
  then show "2 powi ilog2 x \<le> x" and "x < 2 powi (ilog2 x + 1)" by simp_all
qed

lemma ilog2_unique:
  assumes "0 < x" and lo: "2 powi e \<le> x" and hi: "x < 2 powi (e + 1)"
  shows "ilog2 x = e"
proof (rule ccontr)
  assume ne: "ilog2 x \<noteq> e"
  note b = ilog2_bounds [OF assms(1)]
  show False
  proof (cases "ilog2 x < e")
    case True
    then have "ilog2 x + 1 \<le> e" by simp
    then have "(2::rat) powi (ilog2 x + 1) \<le> 2 powi e"
      by (intro power_int_increasing) simp_all
    with b(2) lo show False by linarith
  next
    case False
    with ne have "e + 1 \<le> ilog2 x" by simp
    then have "(2::rat) powi (e + 1) \<le> 2 powi ilog2 x"
      by (intro power_int_increasing) simp_all
    with b(1) hi show False by linarith
  qed
qed

lemma roundHalfEven_error: "\<bar>of_int (roundHalfEven x) - x\<bar> \<le> 1 / 2"
proof -
  define f where "f = \<lfloor>x\<rfloor>"
  define r where "r = x - of_int f"
  have r: "0 \<le> r" "r < 1" unfolding r_def f_def by linarith+
  have x: "x = of_int f + r" by (simp add: r_def)
  have "roundHalfEven x = f \<and> r \<le> 1 / 2 \<or> roundHalfEven x = f + 1 \<and> 1 / 2 \<le> r"
    unfolding roundHalfEven_def Let_def f_def [symmetric] r_def [symmetric]
    by (cases "r < 1 / 2"; cases "1 / 2 < r"; cases "even f") simp_all
  then show ?thesis
  proof
    assume "roundHalfEven x = f \<and> r \<le> 1 / 2"
    with r show ?thesis unfolding x by simp
  next
    assume "roundHalfEven x = f + 1 \<and> 1 / 2 \<le> r"
    with r show ?thesis unfolding x by simp
  qed
qed

lemma roundHalfEven_of_int [simp]: "roundHalfEven (of_int j) = j"
  by (simp add: roundHalfEven_def)

lemma fl_error: "\<bar>fl x - x\<bar> \<le> \<bar>x\<bar> / 2 ^ 53"
proof (cases "x = 0")
  case True
  then show ?thesis by (simp add: fl_def)
next
  case False
  define e where "e = ilog2 \<bar>x\<bar>"
  define ulp :: rat where "ulp = 2 powi (e - 52)"
  have pos: "0 < \<bar>x\<bar>" using False by simp
  have up: "0 < ulp" by (simp add: ulp_def)
  have f: "fl x = of_int (roundHalfEven (x / ulp)) * ulp"
    using False by (simp add: fl_def Let_def ulp_def e_def)
  have "fl x - x = (of_int (roundHalfEven (x / ulp)) - x / ulp) * ulp"
    using up by (simp add: f field_simps)
  then have "\<bar>fl x - x\<bar> = \<bar>of_int (roundHalfEven (x / ulp)) - x / ulp\<bar> * ulp"
    using up by (simp add: abs_mult)
  also have "\<dots> \<le> 1 / 2 * ulp"
    using roundHalfEven_error [of "x / ulp"] up by (intro mult_right_mono) simp_all
  also have "\<dots> = 2 powi e / 2 ^ 53"
  proof -
    have "(2::rat) powi (e - 52) = 2 powi e / 2 powi 52"
      by (simp add: power_int_diff)
    then show ?thesis by (simp add: ulp_def)
  qed
  also have "\<dots> \<le> \<bar>x\<bar> / 2 ^ 53"
    using ilog2_bounds(1) [OF pos] by (simp add: e_def divide_right_mono)
  finally show ?thesis .
qed

lemma fl_dyadic:
  assumes j: "\<bar>j\<bar> < 2 ^ 53"
  shows "fl (of_int j / 2 ^ k) = of_int j / 2 ^ k"
proof (cases "j = 0")
  case True
  then show ?thesis by (simp add: fl_def)
next
  case False
  define x :: rat where "x = of_int j / 2 ^ k"
  define e where "e = ilog2 \<bar>x\<bar>"
  have x0: "x \<noteq> 0" using False by (simp add: x_def)
  then have pos: "0 < \<bar>x\<bar>" by simp
  have "\<bar>x\<bar> = of_int \<bar>j\<bar> / 2 ^ k" by (simp add: x_def abs_divide)
  also have "\<dots> < 2 ^ 53 / 2 ^ k"
  proof -
    from j have "(of_int \<bar>j\<bar> :: rat) < of_int (2 ^ 53)" by (simp only: of_int_less_iff)
    then show ?thesis by (simp add: divide_strict_right_mono)
  qed
  also have "\<dots> = 2 powi (53 - int k)"
    by (simp add: power_int_diff)
  finally have xb: "\<bar>x\<bar> < 2 powi (53 - int k)" .
  have ek: "e \<le> 52 - int k"
  proof (rule ccontr)
    assume "\<not> e \<le> 52 - int k"
    then have "53 - int k \<le> e" by simp
    then have "(2::rat) powi (53 - int k) \<le> 2 powi e"
      by (intro power_int_increasing) simp_all
    with ilog2_bounds(1) [OF pos] xb show False by (simp add: e_def)
  qed
  define n where "n = nat (52 - int k - e)"
  have n: "int n = 52 - int k - e" using ek by (simp add: n_def)
  have "x / 2 powi (e - 52) = x * 2 powi (52 - e)"
  proof -
    have "(2::rat) powi (e - 52) = 1 / 2 powi (52 - e)"
      using power_int_minus_divide [of "2::rat" "52 - e"] by simp
    then show ?thesis by simp
  qed
  also have "(2::rat) powi (52 - e) = 2 ^ k * 2 ^ n"
  proof -
    have "52 - e = int k + int n" using n by simp
    then have "(2::rat) powi (52 - e) = 2 powi int k * 2 powi int n"
      by (simp add: power_int_add)
    then show ?thesis by simp
  qed
  also have "x * (2 ^ k * 2 ^ n) = of_int (j * 2 ^ n)"
    by (simp add: x_def)
  finally have m: "x / 2 powi (e - 52) = of_int (j * 2 ^ n)" .
  have "fl x = of_int (roundHalfEven (x / 2 powi (e - 52))) * 2 powi (e - 52)"
    using x0 by (simp add: fl_def Let_def e_def)
  also have "\<dots> = x / 2 powi (e - 52) * 2 powi (e - 52)"
    unfolding m by (simp only: roundHalfEven_of_int)
  also have "\<dots> = x" by simp
  finally show ?thesis by (simp add: x_def)
qed

lemma fl_of_int: "\<bar>j\<bar> < 2 ^ 53 \<Longrightarrow> fl (of_int j) = of_int j"
  using fl_dyadic [of j 0] by simp

lemma fl_zero [simp]: "fl 0 = 0"
  by (simp add: fl_def)

lemma fl_abs_le: "\<bar>fl x\<bar> \<le> \<bar>x\<bar> * (1 + 1 / 2 ^ 53)"
proof -
  have "\<bar>fl x\<bar> \<le> \<bar>x\<bar> + \<bar>fl x - x\<bar>" by linarith
  with fl_error [of x] show ?thesis by (simp add: algebra_simps)
qed

lemma avgDouble_close:
  fixes t :: int and n :: nat
  assumes n: "0 < n" and t: "\<bar>t\<bar> \<le> 2 ^ 51" and t0: "t \<noteq> 0"
  shows "\<bar>avgDouble (of_int t) n - of_int t / (of_nat n * 60000)\<bar> < 1 / (of_nat n * 60000)"
proof -
  define u :: rat where "u = 1 / 2 ^ 53"
  define x :: rat where "x = of_int t / of_nat n"
  define a where "a = fl x"
  define b where "b = fl (a / 1000)"
  define c where "c = fl (b / 60)"
  define q :: rat where "q = of_int t / (of_nat n * 60000)"
  have np: "(0::rat) < of_nat n" using n by simp
  have u: "0 < u" "u < 1" by (simp_all add: u_def)
  have qx: "q = x / 60000" by (simp add: q_def x_def)
  have qpos: "0 < \<bar>q\<bar>" using t0 np by (simp add: q_def)
  have ea: "\<bar>a - x\<bar> \<le> \<bar>x\<bar> * u" using fl_error [of x] by (simp add: a_def u_def)
  have eb: "\<bar>b - a / 1000\<bar> \<le> \<bar>a / 1000\<bar> * u"
    using fl_error [of "a / 1000"] by (simp add: b_def u_def)
  have ec: "\<bar>c - b / 60\<bar> \<le> \<bar>b / 60\<bar> * u"
    using fl_error [of "b / 60"] by (simp add: c_def u_def)
  have aa: "\<bar>a\<bar> \<le> \<bar>x\<bar> * (1 + u)" using fl_abs_le [of x] by (simp add: a_def u_def)
  have bb: "\<bar>b\<bar> \<le> \<bar>a / 1000\<bar> * (1 + u)"
    using fl_abs_le [of "a / 1000"] by (simp add: b_def u_def)
  have xq: "\<bar>x\<bar> = 60000 * \<bar>q\<bar>" by (simp add: qx)
  have a1: "\<bar>a\<bar> \<le> 60000 * \<bar>q\<bar> * (1 + u)" using aa by (simp add: xq)
  have b1: "\<bar>b\<bar> \<le> 60 * \<bar>q\<bar> * (1 + u) * (1 + u)"
  proof -
    have "\<bar>a / 1000\<bar> \<le> 60 * \<bar>q\<bar> * (1 + u)" using a1 by simp
    then have "\<bar>a / 1000\<bar> * (1 + u) \<le> 60 * \<bar>q\<bar> * (1 + u) * (1 + u)"
      using u by (intro mult_right_mono) simp_all
    with bb show ?thesis by linarith
  qed
  have d1: "\<bar>a - x\<bar> / 60000 \<le> \<bar>q\<bar> * u" using ea by (simp add: xq)
  have d2: "\<bar>b - a / 1000\<bar> / 60 \<le> \<bar>q\<bar> * (1 + u) * u"
  proof -
    have "\<bar>a / 1000\<bar> * u \<le> 60 * \<bar>q\<bar> * (1 + u) * u"
      using a1 u by (intro mult_right_mono) simp_all
    with eb have "\<bar>b - a / 1000\<bar> \<le> 60 * \<bar>q\<bar> * (1 + u) * u" by linarith
    then show ?thesis by simp
  qed
  have d3: "\<bar>c - b / 60\<bar> \<le> \<bar>q\<bar> * (1 + u) * (1 + u) * u"
  proof -
    have "\<bar>b / 60\<bar> * u \<le> \<bar>q\<bar> * (1 + u) * (1 + u) * u"
      using b1 u by (intro mult_right_mono) simp_all
    with ec show ?thesis by linarith
  qed
  have split: "c - q = (c - b / 60) + (b - a / 1000) / 60 + (a - x) / 60000"
    by (simp add: qx field_simps)
  have "\<bar>(c - b / 60) + (b - a / 1000) / 60 + (a - x) / 60000\<bar> \<le>
          \<bar>c - b / 60\<bar> + \<bar>(b - a / 1000) / 60\<bar> + \<bar>(a - x) / 60000\<bar>"
    by (rule order_trans [OF abs_triangle_ineq add_mono [OF abs_triangle_ineq order_refl]])
  then have "\<bar>c - q\<bar> \<le> \<bar>c - b / 60\<bar> + \<bar>b - a / 1000\<bar> / 60 + \<bar>a - x\<bar> / 60000"
    unfolding split [symmetric] by (simp add: abs_divide)
  with d1 d2 d3 have "\<bar>c - q\<bar> \<le> \<bar>q\<bar> * (1 + u) * (1 + u) * u + \<bar>q\<bar> * (1 + u) * u + \<bar>q\<bar> * u"
    by linarith
  also have "\<dots> = \<bar>q\<bar> * u * (3 + 3 * u + u * u)" by (simp add: algebra_simps)
  also have "\<dots> < \<bar>q\<bar> * u * 4"
  proof -
    have uu: "u * u < u" using u by simp
    have "u < 1 / 4" by (simp add: u_def)
    with uu have "3 + 3 * u + u * u < 4" by linarith
    moreover have "0 < \<bar>q\<bar> * u" using qpos u by simp
    ultimately show ?thesis by (intro mult_strict_left_mono) simp_all
  qed
  also have "\<dots> \<le> 1 / (of_nat n * 60000)"
  proof -
    from t have "(of_int \<bar>t\<bar> :: rat) \<le> of_int (2 ^ 51)" by (simp only: of_int_le_iff)
    then have tt: "\<bar>of_int t :: rat\<bar> \<le> 2 ^ 51" by simp
    have "\<bar>q\<bar> = \<bar>of_int t\<bar> / (of_nat n * 60000)" by (simp add: q_def abs_divide)
    also have "\<dots> \<le> 2 ^ 51 / (of_nat n * 60000)"
      using tt np by (intro divide_right_mono) simp_all
    finally have "\<bar>q\<bar> * u * 4 \<le> 2 ^ 51 / (of_nat n * 60000) * u * 4"
      using u by (intro mult_right_mono) simp_all
    also have "\<dots> = 1 / (of_nat n * 60000)" by (simp add: u_def)
    finally show ?thesis .
  qed
  finally show ?thesis by (simp add: avgDouble_def c_def b_def a_def x_def q_def)
qed

lemma avgDouble_round:
  fixes t :: int and n :: nat
  assumes n: "0 < n" and t: "\<bar>t\<bar> \<le> 2 ^ 51"
  shows "\<lfloor>avgDouble (of_int t) n + 1 / 2\<rfloor> =
         \<lfloor>(of_int t / (of_nat n * 60000) + 1 / 2 :: rat)\<rfloor>"
proof -
  define q :: rat where "q = of_int t / (of_nat n * 60000)"
  define c where "c = avgDouble (of_int t) n"
  define k where "k = \<lfloor>q + 1 / 2\<rfloor>"
  define H :: int where "H = 30000 * int n"
  have Hp: "0 < H" using n by (simp add: H_def)
  have D: "(of_nat n * 60000 :: rat) = 2 * of_int H" by (simp add: H_def)
  have q: "q = of_int t / (2 * of_int H)" by (simp add: q_def D)
  have HR: "(0::rat) < of_int H" using Hp by simp
  have k1: "of_int k \<le> q + 1 / 2" and k2: "q + 1 / 2 < of_int k + 1"
    unfolding k_def by linarith+
  have lo: "(2 * k - 1) * H \<le> t"
  proof -
    from k1 HR have "(of_int k - 1 / 2) * (2 * of_int H) \<le> q * (2 * of_int H)"
      by (intro mult_right_mono) simp_all
    then have "(of_int ((2 * k - 1) * H) :: rat) \<le> of_int t"
      using HR by (simp add: q algebra_simps)
    then show ?thesis by (simp only: of_int_le_iff)
  qed
  have hi: "t < (2 * k + 1) * H"
  proof -
    from k2 HR have "q * (2 * of_int H) < (of_int k + 1 / 2) * (2 * of_int H)"
      by (intro mult_strict_right_mono) simp_all
    then have "(of_int t :: rat) < of_int ((2 * k + 1) * H)"
      using HR by (simp add: q algebra_simps)
    then show ?thesis by (simp only: of_int_less_iff)
  qed
  have "\<lfloor>c + 1 / 2\<rfloor> = k"
  proof (cases "t = (2 * k - 1) * H")
    case True
    define j where "j = 2 * k - 1"
    have tj: "t = j * H" using True by (simp add: j_def)
    have jb: "\<bar>j\<bar> \<le> \<bar>t\<bar>"
    proof -
      have "\<bar>t\<bar> = \<bar>j\<bar> * H" using Hp by (simp add: tj abs_mult)
      moreover have "\<bar>j\<bar> * 1 \<le> \<bar>j\<bar> * H" using Hp by (intro mult_left_mono) simp_all
      ultimately show ?thesis by simp
    qed
    have s1: "\<bar>j * 30000\<bar> < 2 ^ 53"
    proof -
      have "\<bar>t\<bar> = \<bar>j\<bar> * 30000 * int n" using n by (simp add: tj H_def abs_mult)
      moreover have "\<bar>j\<bar> * 30000 * 1 \<le> \<bar>j\<bar> * 30000 * int n"
        using n by (intro mult_left_mono) simp_all
      ultimately have "\<bar>j * 30000\<bar> \<le> \<bar>t\<bar>" by (simp add: abs_mult)
      with t show ?thesis by simp
    qed
    have s2: "\<bar>j * 30\<bar> < 2 ^ 53" using s1 by (simp add: abs_mult)
    have s3: "\<bar>j\<bar> < 2 ^ 53" using s1 by (simp add: abs_mult)
    have x: "(of_int t :: rat) / of_nat n = of_int (j * 30000)"
      using n by (simp add: tj H_def)
    have "c = fl (fl (fl (of_int (j * 30000)) / 1000) / 60)"
      by (simp only: c_def avgDouble_def x)
    also have "fl (of_int (j * 30000)) = (of_int (j * 30000) :: rat)"
      by (rule fl_of_int [OF s1])
    also have "(of_int (j * 30000) :: rat) / 1000 = of_int (j * 30)" by simp
    also have "fl (of_int (j * 30)) = (of_int (j * 30) :: rat)"
      by (rule fl_of_int [OF s2])
    also have "(of_int (j * 30) :: rat) / 60 = of_int j / 2 ^ 1" by simp
    also have "fl (of_int j / 2 ^ 1) = (of_int j / 2 ^ 1 :: rat)"
      by (rule fl_dyadic [OF s3])
    finally have "c = of_int j / 2" by simp
    then have "c + 1 / 2 = of_int k" by (simp add: j_def)
    then show ?thesis by simp
  next
    case False
    with lo have lo': "(2 * k - 1) * H + 1 \<le> t" by simp
    from hi have hi': "t + 1 \<le> (2 * k + 1) * H" by simp
    have close: "\<bar>c - q\<bar> < 1 / (2 * of_int H)"
    proof (cases "t = 0")
      case True
      then show ?thesis using HR by (simp add: c_def q_def avgDouble_def)
    next
      case t0: False
      show ?thesis
        using avgDouble_close [OF n t t0] by (simp add: c_def q_def D)
    qed
    have ql: "of_int k - 1 / 2 + 1 / (2 * of_int H) \<le> q"
    proof -
      from lo' have "(of_int ((2 * k - 1) * H + 1) :: rat) \<le> of_int t"
        by (simp only: of_int_le_iff)
      then have "(of_int ((2 * k - 1) * H + 1) :: rat) / (2 * of_int H) \<le> q"
        using HR by (simp add: q divide_right_mono)
      moreover have "(of_int ((2 * k - 1) * H + 1) :: rat) / (2 * of_int H) =
          of_int k - 1 / 2 + 1 / (2 * of_int H)"
        using HR by (simp add: field_simps)
      ultimately show ?thesis by simp
    qed
    have qh: "q \<le> of_int k + 1 / 2 - 1 / (2 * of_int H)"
    proof -
      from hi' have "t \<le> (2 * k + 1) * H - 1" by simp
      then have "(of_int t :: rat) \<le> of_int ((2 * k + 1) * H - 1)"
        by (simp only: of_int_le_iff)
      then have "q \<le> (of_int ((2 * k + 1) * H - 1) :: rat) / (2 * of_int H)"
        using HR by (simp add: q divide_right_mono)
      moreover have "(of_int ((2 * k + 1) * H - 1) :: rat) / (2 * of_int H) =
          of_int k + 1 / 2 - 1 / (2 * of_int H)"
        using HR by (simp add: field_simps)
      ultimately show ?thesis by simp
    qed
    from close ql qh have "of_int k \<le> c + 1 / 2" and "c + 1 / 2 < of_int k + 1"
      by linarith+
    then show ?thesis by linarith
  qed
  then show ?thesis by (simp add: c_def k_def q_def)
qed


lemma fl_scaled:
  assumes j: "\<bar>j\<bar> < 2 ^ 53"
  shows "fl (of_int j * 2 ^ k) = of_int j * 2 ^ k"
proof (cases "j = 0")
  case True
  then show ?thesis by (simp add: fl_def)
next
  case False
  define x :: rat where "x = of_int j * 2 ^ k"
  define e where "e = ilog2 \<bar>x\<bar>"
  have x0: "x \<noteq> 0" using False by (simp add: x_def)
  then have pos: "0 < \<bar>x\<bar>" by simp
  have "\<bar>x\<bar> = of_int \<bar>j\<bar> * 2 ^ k" by (simp add: x_def abs_mult)
  also have "\<dots> < 2 ^ 53 * 2 ^ k"
  proof -
    from j have "(of_int \<bar>j\<bar> :: rat) < of_int (2 ^ 53)" by (simp only: of_int_less_iff)
    then show ?thesis by (intro mult_strict_right_mono) simp_all
  qed
  also have "\<dots> = 2 powi (53 + int k)"
    by (simp add: power_int_add)
  finally have xb: "\<bar>x\<bar> < 2 powi (53 + int k)" .
  have ek: "e \<le> 52 + int k"
  proof (rule ccontr)
    assume "\<not> e \<le> 52 + int k"
    then have "53 + int k \<le> e" by simp
    then have "(2::rat) powi (53 + int k) \<le> 2 powi e"
      by (intro power_int_increasing) simp_all
    with ilog2_bounds(1) [OF pos] xb show False by (simp add: e_def)
  qed
  define n where "n = nat (52 + int k - e)"
  have n: "int n = 52 + int k - e" using ek by (simp add: n_def)
  have "x / 2 powi (e - 52) = x * 2 powi (52 - e)"
  proof -
    have "(2::rat) powi (e - 52) = 1 / 2 powi (52 - e)"
      using power_int_minus_divide [of "2::rat" "52 - e"] by simp
    then show ?thesis by simp
  qed
  also have "\<dots> = of_int j * (2 powi int k * 2 powi (52 - e))"
    by (simp add: x_def)
  also have "(2::rat) powi int k * 2 powi (52 - e) = 2 powi int n"
  proof -
    have "int k + (52 - e) = int n" using n by simp
    moreover have "(2::rat) powi (int k + (52 - e)) = 2 powi int k * 2 powi (52 - e)"
      by (rule power_int_add) simp
    ultimately show ?thesis by (simp only:)
  qed
  also have "of_int j * (2::rat) powi int n = of_int (j * 2 ^ n)"
    by simp
  finally have m: "x / 2 powi (e - 52) = of_int (j * 2 ^ n)" .
  have "fl x = of_int (roundHalfEven (x / 2 powi (e - 52))) * 2 powi (e - 52)"
    using x0 by (simp add: fl_def Let_def e_def)
  also have "\<dots> = x / 2 powi (e - 52) * 2 powi (e - 52)"
    unfolding m by (simp only: roundHalfEven_of_int)
  also have "\<dots> = x" by simp
  finally show ?thesis by (simp add: x_def)
qed

lemma fl_eval:
  assumes "x \<noteq> 0" and "2 powi e \<le> \<bar>x\<bar>" and "\<bar>x\<bar> < 2 powi (e + 1)"
  shows "fl x = of_int (roundHalfEven (x / 2 powi (e - 52))) * 2 powi (e - 52)"
proof -
  from assms(1) have "0 < \<bar>x\<bar>" by simp
  from ilog2_unique [OF this assms(2,3)] assms(1) show ?thesis
    by (simp add: fl_def Let_def)
qed

lemma jsAdd_safe:
  assumes "\<bar>a + b\<bar> < 2 ^ 53"
  shows "jsAdd (Num a) (Num b) = Num (a + b)"
proof -
  have f: "fl (of_int a + of_int b) = (of_int (a + b) :: rat)"
    using fl_of_int [OF assms] by simp
  from assms have "(of_int \<bar>a + b\<bar> :: rat) < of_int (2 ^ 53)" by (simp only: of_int_less_iff)
  then have b: "\<bar>of_int (a + b) :: rat\<bar> < 2 ^ 53" by simp
  have "(2::rat) ^ 53 \<le> 2 ^ 1024" by (intro power_increasing) simp_all
  with b have "(of_int (a + b) :: rat) < 2 ^ 1024" "- (2 ^ 1024) < (of_int (a + b) :: rat)"
    by linarith+
  then show ?thesis
    unfolding jsAdd.simps f numOfRat_def by (simp only: not_le [symmetric] if_False floor_of_int)
qed

lemma roundHalfEven_tie_even: "even j \<Longrightarrow> roundHalfEven (of_int j + 1 / 2) = j"
proof -
  have "\<lfloor>(of_int j + 1 / 2 :: rat)\<rfloor> = j" by linarith
  then show "even j \<Longrightarrow> roundHalfEven (of_int j + 1 / 2) = j"
    by (simp add: roundHalfEven_def Let_def)
qed

lemma roundHalfEven_tie_odd: "odd j \<Longrightarrow> roundHalfEven (of_int j + 1 / 2) = j + 1"
proof -
  have "\<lfloor>(of_int j + 1 / 2 :: rat)\<rfloor> = j" by linarith
  then show "odd j \<Longrightarrow> roundHalfEven (of_int j + 1 / 2) = j + 1"
    by (simp add: roundHalfEven_def Let_def)
qed

lemma jsAdd_two53: "jsAdd (Num 9007199254740992) (Num 1) = Num 9007199254740992"
proof -
  have x: "(of_int 9007199254740992 + of_int 1 :: rat) = 9007199254740993" by simp
  have "fl (9007199254740993 :: rat) =
          of_int (roundHalfEven (9007199254740993 / 2 powi (53 - 52))) * 2 powi (53 - 52)"
    by (rule fl_eval) simp_all
  also have "(9007199254740993 :: rat) / 2 powi (53 - 52) = of_int 4503599627370496 + 1 / 2"
    by simp
  also have "roundHalfEven (of_int 4503599627370496 + 1 / 2) = 4503599627370496"
    by (rule roundHalfEven_tie_even) simp
  finally have f: "fl (9007199254740993 :: rat) = 9007199254740992" by simp
  have "(9007199254740992::rat) < 2 ^ 1024"
  proof -
    have "(9007199254740992::rat) = 2 ^ 53" by simp
    also have "\<dots> < 2 ^ 1024" by (intro power_strict_increasing) simp_all
    finally show ?thesis .
  qed
  then show ?thesis
    unfolding jsAdd.simps x f numOfRat_def by simp
qed


subsection \<open>Lists\<close>

lemma findIndex_Some_iff:
  "findIndex P xs = Some i \<longleftrightarrow> i < length xs \<and> P (xs ! i) \<and> (\<forall>j<i. \<not> P (xs ! j))"
proof (induction xs arbitrary: i)
  case Nil
  show ?case by simp
next
  case (Cons x xs)
  show ?case
  proof (cases "P x")
    case True
    then show ?thesis by (cases i) auto
  next
    case False
    show ?thesis
    proof (cases i)
      case 0
      with False show ?thesis by simp
    next
      case (Suc k)
      have "(\<forall>j<Suc k. \<not> P ((x # xs) ! j)) \<longleftrightarrow> (\<forall>j<k. \<not> P (xs ! j))"
        using False by (auto simp: less_Suc_eq_0_disj)
      with False Suc Cons.IH [of k] show ?thesis by auto
    qed
  qed
qed

lemma findIndex_None_iff: "findIndex P xs = None \<longleftrightarrow> (\<forall>x\<in>set xs. \<not> P x)"
  by (induction xs) auto

lemma find_findIndex:
  "find P xs = (case findIndex P xs of None \<Rightarrow> None | Some i \<Rightarrow> Some (xs ! i))"
  by (induction xs) (auto split: option.splits)

subsection \<open>History is capped at 100 entries\<close>

lemma entryOf_tuple [simp]:
  "entryOf (tId, rnd, tStamp, mangaId, action, details) = historyEntry tId rnd tStamp mangaId action details"
  by (simp add: entryOf_def)

lemma addToHistory_history:
  "history (snd (addToHistory tId rnd tStamp mangaId action details d)) =
     take 100 (historyEntry tId rnd tStamp mangaId action details # history d)"
  by (simp add: addToHistory_def Let_def)

lemma take_append_take: "take n (xs @ take n ys) = take n (xs @ ys)"
  by simp

lemma recordAll_history_capped:
  "length (history d) \<le> 100 \<Longrightarrow>
   history (recordAll cs d) = take 100 (rev (map entryOf cs) @ history d)"
proof (induction cs arbitrary: d)
  case Nil
  then show ?case by simp
next
  case (Cons c cs)
  obtain tId rnd tStamp mangaId action details where c: "c = (tId, rnd, tStamp, mangaId, action, details)"
    by (cases c) auto
  let ?d = "snd (addToHistory tId rnd tStamp mangaId action details d)"
  have len: "length (history ?d) \<le> 100"
    by (simp add: addToHistory_history)
  have "history (recordAll (c # cs) d) =
          take 100 (rev (map entryOf cs) @ take 100 (entryOf c # history d))"
    using Cons.IH [OF len] by (simp add: c addToHistory_history)
  also have "\<dots> = take 100 (rev (map entryOf cs) @ entryOf c # history d)"
    by (rule take_append_take)
  finally show ?case by simp
qed

lemma recordAll_history:
  "cs \<noteq> [] \<Longrightarrow>
   history (recordAll cs d) = take 100 (rev (map entryOf cs) @ history d)"
proof (cases cs)
  case Nil
  assume "cs \<noteq> []"
  with Nil show ?thesis by simp
next
  case (Cons c cs')
  obtain tId rnd tStamp mangaId action details where c: "c = (tId, rnd, tStamp, mangaId, action, details)"
    by (cases c) auto
  let ?d = "snd (addToHistory tId rnd tStamp mangaId action details d)"
  have len: "length (history ?d) \<le> 100"
    by (simp add: addToHistory_history)
  have "history (recordAll cs d) =
          take 100 (rev (map entryOf cs') @ take 100 (entryOf c # history d))"
    using recordAll_history_capped [OF len, of cs']
    by (simp add: Cons c addToHistory_history)
  also have "\<dots> = take 100 (rev (map entryOf cs') @ entryOf c # history d)"
    by (rule take_append_take)
  finally show ?thesis by (simp add: Cons)
qed


text \<open>
  C3. \<open>addToHistory\<close> returns the new entry, puts it at the head of the history and keeps
  the first 100 entries of the result, so the history never holds more than 100
  entries afterwards. After 101 calls in a row, from any store, the history is exactly
  the entries of the last 100 calls, the newest first.
\<close>

theorem addToHistory_cap:
  "fst (addToHistory tId rnd tStamp mangaId action details d) =
     historyEntry tId rnd tStamp mangaId action details \<and>
   history (snd (addToHistory tId rnd tStamp mangaId action details d)) =
     take 100 (historyEntry tId rnd tStamp mangaId action details # history d) \<and>
   length (history (snd (addToHistory tId rnd tStamp mangaId action details d))) \<le> 100 \<and>
   (length cs = 101 \<longrightarrow>
      history (recordAll cs d) = rev (map entryOf (tl cs)) \<and>
      length (history (recordAll cs d)) = 100)"
proof -
  have one: "history (snd (addToHistory tId rnd tStamp mangaId action details d)) =
     take 100 (historyEntry tId rnd tStamp mangaId action details # history d)"
    by (rule addToHistory_history)
  have ret: "fst (addToHistory tId rnd tStamp mangaId action details d) =
     historyEntry tId rnd tStamp mangaId action details"
    by (simp add: addToHistory_def Let_def)
  have many: "history (recordAll cs d) = rev (map entryOf (tl cs)) \<and>
      length (history (recordAll cs d)) = 100" if len: "length cs = 101"
  proof -
    from len obtain c cs' where cs: "cs = c # cs'" and len': "length cs' = 100"
      by (cases cs) auto
    have "history (recordAll cs d) = take 100 (rev (map entryOf cs) @ history d)"
      by (rule recordAll_history) (simp add: cs)
    also have "\<dots> = rev (map entryOf cs')"
      by (simp add: cs len')
    finally show ?thesis by (simp add: cs len')
  qed
  from one ret many show ?thesis by simp
qed

theorem addToHistory_cap_witness:
  "history (recordAll calls101 initialData) = rev (map entryOf (tl calls101)) \<and>
   length (history (recordAll calls101 initialData)) = 100"
proof -
  have len: "length calls101 = 101" by (simp add: calls101_def)
  from addToHistory_cap [of 0 "''r''" 0 "''m''" "''read''" "[]" initialData calls101] len
  show ?thesis by simp
qed


subsection \<open>Deleting a manga entry\<close>

text \<open>
  C10. \<open>deleteManga\<close> changes nothing but the \<open>manga\<close> collection: reading sessions,
  bookmarks, history, tags and settings are the same before and after, whether or not
  an entry was removed, so whatever refers to the removed entry's id stays.
\<close>

theorem deleteManga_frame:
  "readingSessions (snd (deleteManga ident d)) = readingSessions d \<and>
   bookmarks (snd (deleteManga ident d)) = bookmarks d \<and>
   history (snd (deleteManga ident d)) = history d \<and>
   tags (snd (deleteManga ident d)) = tags d \<and>
   settings (snd (deleteManga ident d)) = settings d"
  by (simp add: deleteManga_def split: option.splits)


theorem deleteManga_frame_witness:
  "readingSessions (snd (deleteManga ''a'' oneStore)) = readingSessions oneStore \<and>
   bookmarks (snd (deleteManga ''a'' oneStore)) = bookmarks oneStore \<and>
   history (snd (deleteManga ''a'' oneStore)) = history oneStore \<and>
   manga (snd (deleteManga ''a'' oneStore)) = []"
  using deleteManga_frame [of "''a''" oneStore]
  by (simp add: deleteManga_def oneStore_def sampleManga_def splice1_def)

lemma find_after_splice1:
  "findIndex P xs = Some i \<Longrightarrow>
   (find P (splice1 i xs) = None) = (length (filter P xs) = 1)"
proof (induction xs arbitrary: i)
  case Nil
  then show ?case by simp
next
  case (Cons x xs)
  show ?case
  proof (cases "P x")
    case True
    with Cons.prems have "i = 0" by simp
    with True show ?thesis
      by (auto simp: splice1_def find_None_iff filter_empty_conv)
  next
    case False
    with Cons.prems obtain k where k: "findIndex P xs = Some k" and i: "i = Suc k"
      by auto
    from Cons.IH [OF k] False show ?thesis
      by (simp add: i splice1_def)
  qed
qed

lemma findIndex_split:
  assumes "findIndex P xs = Some i"
  shows "xs = take i xs @ xs ! i # drop (Suc i) xs \<and> P (xs ! i) \<and>
         (\<forall>x\<in>set (take i xs). \<not> P x)"
proof -
  from assms have i: "i < length xs" and p: "P (xs ! i)" and b: "\<forall>j<i. \<not> P (xs ! j)"
    by (simp_all add: findIndex_Some_iff)
  from i have "xs = take i xs @ xs ! i # drop (Suc i) xs"
    by (rule id_take_nth_drop)
  moreover have "\<forall>x\<in>set (take i xs). \<not> P x"
    using b i by (auto simp: in_set_conv_nth)
  ultimately show ?thesis using p by blast
qed

lemma getManga_findIndex:
  "getManga ident d =
     (case findIndex (\<lambda>m. m_id m = ident) (manga d) of
        None \<Rightarrow> None | Some i \<Rightarrow> Some (manga d ! i))"
  by (simp add: getManga_def find_findIndex)

text \<open>
  C8 (as amended). When no entry has the id, \<open>deleteManga\<close> returns \<open>None\<close> and the store
  is unchanged. Otherwise it removes the first entry with that id, returns it and leaves
  every other entry in place; \<open>getManga\<close> with that id then finds nothing exactly when
  the removed entry was the only one with the id.
\<close>

theorem deleteManga_result:
  "(getManga ident d = None \<longrightarrow> deleteManga ident d = (None, d)) \<and>
   (\<forall>m. getManga ident d = Some m \<longrightarrow>
      (\<exists>before after.
         manga d = before @ m # after \<and> (\<forall>x\<in>set before. m_id x \<noteq> ident) \<and>
         deleteManga ident d = (Some m, d\<lparr>manga := before @ after\<rparr>)) \<and>
      ((getManga ident (snd (deleteManga ident d)) = None) =
       (length (filter (\<lambda>x. m_id x = ident) (manga d)) = 1)))"
proof (cases "findIndex (\<lambda>m. m_id m = ident) (manga d)")
  case None
  then show ?thesis by (simp add: getManga_findIndex deleteManga_def)
next
  case (Some i)
  let ?P = "\<lambda>m. m_id m = ident"
  note sp = findIndex_split [OF Some]
  have del: "deleteManga ident d =
      (Some (manga d ! i), d\<lparr>manga := take i (manga d) @ drop (Suc i) (manga d)\<rparr>)"
    by (simp add: deleteManga_def Some splice1_def)
  have ex: "\<exists>before after.
         manga d = before @ (manga d ! i) # after \<and> (\<forall>x\<in>set before. m_id x \<noteq> ident) \<and>
         deleteManga ident d = (Some (manga d ! i), d\<lparr>manga := before @ after\<rparr>)"
    using sp del by blast
  have gone: "(getManga ident (snd (deleteManga ident d)) = None) =
       (length (filter ?P (manga d)) = 1)"
    using find_after_splice1 [OF Some] by (simp add: getManga_def deleteManga_def Some)
  from ex gone show ?thesis by (simp add: getManga_findIndex Some)
qed

theorem deleteManga_result_witness:
  "getManga ''a'' oneStore = Some (sampleManga ''a'' ''One'' ''reading'') \<and>
   getManga ''a'' (snd (deleteManga ''a'' oneStore)) = None \<and>
   getManga ''b'' oneStore = None \<and> deleteManga ''b'' oneStore = (None, oneStore)"
proof -
  have g: "getManga ''a'' oneStore = Some (sampleManga ''a'' ''One'' ''reading'')"
    by (simp add: getManga_def oneStore_def sampleManga_def)
  have n: "getManga ''b'' oneStore = None"
    by (simp add: getManga_def oneStore_def sampleManga_def)
  have c: "length (filter (\<lambda>x. m_id x = ''a'') (manga oneStore)) = 1"
    by (simp add: oneStore_def sampleManga_def)
  from deleteManga_result [of "''a''" oneStore] g c
  have "getManga ''a'' (snd (deleteManga ''a'' oneStore)) = None" by simp
  moreover from deleteManga_result [of "''b''" oneStore] n
  have "deleteManga ''b'' oneStore = (None, oneStore)" by simp
  ultimately show ?thesis using g n by simp
qed

text \<open>
  C8 as stated fails where two entries share an id: \<open>dupStore\<close> is built by two
  \<open>addManga\<close> calls and one \<open>updateManga\<close> call that overwrites an id. Deleting by that id
  removes the first entry and \<open>getManga\<close> still finds the second.
\<close>

theorem deleteManga_then_getManga_counterexample:
  "map m_id (manga dupStore) = [''1x'', ''1x''] \<and>
   map_option m_title (fst (deleteManga ''1x'' dupStore)) = Some ''One'' \<and>
   map_option m_title (getManga ''1x'' (snd (deleteManga ''1x'' dupStore))) = Some ''Two''"
  by code_simp


subsection \<open>Updating a manga entry\<close>

lemma find_list_update:
  "findIndex P xs = Some i \<Longrightarrow> P y \<Longrightarrow> find P (xs[i := y]) = Some y"
proof (induction xs arbitrary: i)
  case Nil
  then show ?case by simp
next
  case (Cons x xs)
  show ?case
  proof (cases "P x")
    case True
    with Cons.prems show ?thesis by simp
  next
    case False
    with Cons.prems obtain k where "findIndex P xs = Some k" and "i = Suc k"
      by auto
    with Cons.IH [of k] Cons.prems(2) False show ?thesis by simp
  qed
qed

lemma find_list_update_other:
  "findIndex P xs = Some i \<Longrightarrow> \<not> P y \<Longrightarrow> find P (xs[i := y]) = find P (drop (Suc i) xs)"
proof (induction xs arbitrary: i)
  case Nil
  then show ?case by simp
next
  case (Cons x xs)
  show ?case
  proof (cases "P x")
    case True
    with Cons.prems show ?thesis by simp
  next
    case False
    with Cons.prems obtain k where "findIndex P xs = Some k" and "i = Suc k"
      by auto
    with Cons.IH [of k] Cons.prems(2) False show ?thesis by simp
  qed
qed

lemma mergeManga_id: "m_id (mergeManga now old updates) = spread (m_id old) (u_id updates)"
  by (simp add: mergeManga_def)

lemma updateManga_found:
  assumes "getManga ident d = Some old"
  shows "\<exists>i. findIndex (\<lambda>m. m_id m = ident) (manga d) = Some i \<and> manga d ! i = old \<and>
             m_id old = ident \<and>
             updateManga now ident updates d =
               (Some (mergeManga now old updates),
                d\<lparr>manga := (manga d)[i := mergeManga now old updates]\<rparr>)"
proof (cases "findIndex (\<lambda>m. m_id m = ident) (manga d)")
  case None
  with assms show ?thesis by (simp add: getManga_findIndex)
next
  case (Some i)
  with assms have old: "manga d ! i = old" by (simp add: getManga_findIndex)
  from Some have "m_id (manga d ! i) = ident" by (simp add: findIndex_Some_iff)
  with old Some show ?thesis by (simp add: updateManga_def Let_def)
qed

lemma updateManga_getManga:
  assumes g: "getManga ident d = Some old"
      and keep: "u_id updates = None \<or> u_id updates = Some ident"
  shows "getManga ident (snd (updateManga now ident updates d)) =
           Some (mergeManga now old updates)"
proof -
  from updateManga_found [OF g, of now updates] obtain i where
    i: "findIndex (\<lambda>m. m_id m = ident) (manga d) = Some i" and
    old: "m_id old = ident" and
    u: "updateManga now ident updates d =
          (Some (mergeManga now old updates),
           d\<lparr>manga := (manga d)[i := mergeManga now old updates]\<rparr>)"
    by blast
  from keep old have "m_id (mergeManga now old updates) = ident"
    by (auto simp: mergeManga_id spread_def)
  from find_list_update [OF i, where y = "mergeManga now old updates"] this
  show ?thesis by (simp add: u getManga_def)
qed

lemma addedStore_manga: "getManga ''5x'' addedStore = Some addedEntry"
  by code_simp


text \<open>
  C4 (as amended). When no entry has the id, \<open>updateManga\<close> returns \<open>None\<close> and the store is
  unchanged. Otherwise, for updates that leave the id alone, \<open>updateManga\<close> returns the
  entry that \<open>getManga\<close> then finds under the same id: each property other than \<open>id\<close> and
  \<open>updatedAt\<close> has the value given in the updates, or its old value when the updates do not
  carry it; \<open>updatedAt\<close> is the clock reading of the call, whatever the updates carry,
  and so is strictly greater than before whenever the clock has moved past the old
  \<open>updatedAt\<close>.
\<close>

theorem updateManga_then_getManga:
  "(getManga ident d = None \<longrightarrow> updateManga now ident updates d = (None, d)) \<and>
   (\<forall>old. getManga ident d = Some old \<and> (u_id updates = None \<or> u_id updates = Some ident) \<longrightarrow>
      (\<exists>r. fst (updateManga now ident updates d) = Some r \<and>
            getManga ident (snd (updateManga now ident updates d)) = Some r \<and>
            m_id r = ident \<and>
            m_updatedAt r = now \<and>
            (m_updatedAt old < now \<longrightarrow> m_updatedAt old < m_updatedAt r) \<and>
            m_title r = spread (m_title old) (u_title updates) \<and>
            m_type r = spread (m_type old) (u_type updates) \<and>
            m_status r = spread (m_status old) (u_status updates) \<and>
            m_currentChapter r = spread (m_currentChapter old) (u_currentChapter updates) \<and>
            m_totalChapters r = spread (m_totalChapters old) (u_totalChapters updates) \<and>
            m_rating r = spread (m_rating old) (u_rating updates) \<and>
            m_tags r = spread (m_tags old) (u_tags updates) \<and>
            m_notes r = spread (m_notes old) (u_notes updates) \<and>
            m_coverImage r = spread (m_coverImage old) (u_coverImage updates) \<and>
            m_author r = spread (m_author old) (u_author updates) \<and>
            m_startDate r = spread (m_startDate old) (u_startDate updates) \<and>
            m_endDate r = spread (m_endDate old) (u_endDate updates) \<and>
            m_lastRead r = spread (m_lastRead old) (u_lastRead updates) \<and>
            m_createdAt r = spread (m_createdAt old) (u_createdAt updates)))"
proof -
  have nf: "updateManga now ident updates d = (None, d)" if "getManga ident d = None"
    using that by (simp add: getManga_findIndex updateManga_def split: option.splits)
  have f: "\<exists>r. fst (updateManga now ident updates d) = Some r \<and>
            getManga ident (snd (updateManga now ident updates d)) = Some r \<and>
            r = mergeManga now old updates \<and> m_id old = ident"
    if g: "getManga ident d = Some old"
      and keep: "u_id updates = None \<or> u_id updates = Some ident" for old
    using updateManga_found [OF g, of now updates] updateManga_getManga [OF g keep, of now]
    by auto
  show ?thesis
  proof (intro conjI allI impI)
    assume "getManga ident d = None"
    then show "updateManga now ident updates d = (None, d)" by (rule nf)
  next
    fix old
    assume a: "getManga ident d = Some old \<and> (u_id updates = None \<or> u_id updates = Some ident)"
    from f [of old] a obtain r where r: "fst (updateManga now ident updates d) = Some r"
      "getManga ident (snd (updateManga now ident updates d)) = Some r"
      "r = mergeManga now old updates" "m_id old = ident"
      by blast
    from a r(4) have "m_id (mergeManga now old updates) = ident"
      by (auto simp: mergeManga_id spread_def)
    with r show "\<exists>r. fst (updateManga now ident updates d) = Some r \<and>
            getManga ident (snd (updateManga now ident updates d)) = Some r \<and>
            m_id r = ident \<and>
            m_updatedAt r = now \<and>
            (m_updatedAt old < now \<longrightarrow> m_updatedAt old < m_updatedAt r) \<and>
            m_title r = spread (m_title old) (u_title updates) \<and>
            m_type r = spread (m_type old) (u_type updates) \<and>
            m_status r = spread (m_status old) (u_status updates) \<and>
            m_currentChapter r = spread (m_currentChapter old) (u_currentChapter updates) \<and>
            m_totalChapters r = spread (m_totalChapters old) (u_totalChapters updates) \<and>
            m_rating r = spread (m_rating old) (u_rating updates) \<and>
            m_tags r = spread (m_tags old) (u_tags updates) \<and>
            m_notes r = spread (m_notes old) (u_notes updates) \<and>
            m_coverImage r = spread (m_coverImage old) (u_coverImage updates) \<and>
            m_author r = spread (m_author old) (u_author updates) \<and>
            m_startDate r = spread (m_startDate old) (u_startDate updates) \<and>
            m_endDate r = spread (m_endDate old) (u_endDate updates) \<and>
            m_lastRead r = spread (m_lastRead old) (u_lastRead updates) \<and>
            m_createdAt r = spread (m_createdAt old) (u_createdAt updates)"
      by (simp add: mergeManga_def)
  qed
qed

theorem updateManga_then_getManga_witness:
  "getManga ''5x'' addedStore =
     Some addedEntry \<and>
   (\<exists>r. getManga ''5x'' (snd (updateManga 9 ''5x'' (noUpdates\<lparr>u_title := Some ''New''\<rparr>) addedStore))
          = Some r \<and> m_title r = ''New'' \<and> m_status r = ''reading'' \<and> m_updatedAt r = 9) \<and>
   getManga ''zz'' addedStore = None \<and>
   updateManga 9 ''zz'' (noUpdates\<lparr>u_title := Some ''New''\<rparr>) addedStore = (None, addedStore)"
proof -
  let ?u = "noUpdates\<lparr>u_title := Some ''New''\<rparr>"
  let ?old = addedEntry
  have g: "getManga ''5x'' addedStore = Some ?old" by (rule addedStore_manga)
  have n: "getManga ''zz'' addedStore = None" by code_simp
  have k: "u_id ?u = None" by (simp add: noUpdates_def)
  from updateManga_then_getManga [of "''5x''" addedStore 9 ?u] g k
  obtain r where "getManga ''5x'' (snd (updateManga 9 ''5x'' ?u addedStore)) = Some r"
    "m_updatedAt r = 9" "m_title r = spread (m_title ?old) (u_title ?u)"
    "m_status r = spread (m_status ?old) (u_status ?u)"
    by blast
  then have ex: "\<exists>r. getManga ''5x'' (snd (updateManga 9 ''5x'' ?u addedStore)) = Some r \<and>
      m_title r = ''New'' \<and> m_status r = ''reading'' \<and> m_updatedAt r = 9"
    by (simp add: spread_def noUpdates_def sampleManga_def addedEntry_def)
  from updateManga_then_getManga [of "''zz''" addedStore 9 ?u] n
  have "updateManga 9 ''zz'' ?u addedStore = (None, addedStore)" by simp
  with g n ex show ?thesis by simp
qed


text \<open>
  C4 as stated fails in three ways. An update in the same millisecond as the last one
  leaves \<open>updatedAt\<close> as it was (here 5), not strictly greater; an update of the property
  \<open>updatedAt\<close> is overwritten by the clock reading; and after an update of the property
  \<open>id\<close> the old id finds nothing.
\<close>

theorem updateManga_then_getManga_counterexample:
  "map_option m_updatedAt (getManga ''5x'' addedStore) = Some 5 \<and>
   map_option m_updatedAt
     (getManga ''5x'' (snd (updateManga 5 ''5x'' (noUpdates\<lparr>u_title := Some ''New''\<rparr>) addedStore)))
     = Some 5 \<and>
   map_option m_updatedAt
     (getManga ''5x'' (snd (updateManga 9 ''5x'' (noUpdates\<lparr>u_updatedAt := Some 100\<rparr>) addedStore)))
     = Some 9 \<and>
   getManga ''5x'' (snd (updateManga 9 ''5x'' (noUpdates\<lparr>u_id := Some ''zz''\<rparr>) addedStore)) = None"
  by code_simp



subsection \<open>Adding a manga entry\<close>

lemma orElse_None [simp]: "orElse t None d = d"
  by (simp add: orElse_def)

lemma orElse_Some [simp]: "orElse t (Some v) d = (if t v then v else d)"
  by (simp add: orElse_def)

lemma addManga_eq:
  "addManga tId rnd tStart tCreated tUpdated mangaData d =
     (fst (addManga tId rnd tStart tCreated tUpdated mangaData d),
      d\<lparr>manga := manga d @ [fst (addManga tId rnd tStart tCreated tUpdated mangaData d)]\<rparr>)"
  by (simp add: addManga_def Let_def)

lemma addManga_fields:
  "m_id (fst (addManga tId rnd tStart tCreated tUpdated mangaData d)) = generateId tId rnd"
  "m_title (fst (addManga tId rnd tStart tCreated tUpdated mangaData d)) = d_title mangaData"
  "m_type (fst (addManga tId rnd tStart tCreated tUpdated mangaData d)) =
     orElse truthyStr (d_type mangaData) ''manga''"
  "m_status (fst (addManga tId rnd tStart tCreated tUpdated mangaData d)) =
     orElse truthyStr (d_status mangaData) ''reading''"
  "m_currentChapter (fst (addManga tId rnd tStart tCreated tUpdated mangaData d)) =
     orElse truthyNum (d_currentChapter mangaData) (Num 0)"
  "m_tags (fst (addManga tId rnd tStart tCreated tUpdated mangaData d)) =
     orElse (\<lambda>_. True) (d_tags mangaData) []"
  "m_startDate (fst (addManga tId rnd tStart tCreated tUpdated mangaData d)) =
     orElse (\<lambda>_. True) (d_startDate mangaData) tStart"
  "m_createdAt (fst (addManga tId rnd tStart tCreated tUpdated mangaData d)) = tCreated"
  "m_updatedAt (fst (addManga tId rnd tStart tCreated tUpdated mangaData d)) = tUpdated"
  by (simp_all add: addManga_def Let_def)

lemma addManga_defaults:
  "d_type mangaData = None \<Longrightarrow>
     m_type (fst (addManga tId rnd tStart tCreated tUpdated mangaData d)) = ''manga''"
  "d_status mangaData = None \<Longrightarrow>
     m_status (fst (addManga tId rnd tStart tCreated tUpdated mangaData d)) = ''reading''"
  "d_currentChapter mangaData = None \<Longrightarrow>
     m_currentChapter (fst (addManga tId rnd tStart tCreated tUpdated mangaData d)) = Num 0"
  "d_tags mangaData = None \<Longrightarrow>
     m_tags (fst (addManga tId rnd tStart tCreated tUpdated mangaData d)) = []"
  "d_startDate mangaData = None \<Longrightarrow>
     m_startDate (fst (addManga tId rnd tStart tCreated tUpdated mangaData d)) = tStart"
  by (simp_all add: addManga_fields)


text \<open>
  C7. \<open>addManga\<close> takes the id from \<open>generateId\<close>, which builds it from the clock reading
  and the random digits and never looks at the store. A call whose clock reading and
  random digits repeat those of the call that made the entry \<open>5x\<close> gives the second entry
  the same id: the new id is not distinct from the ids already in the store.
\<close>

theorem addManga_repeats_id:
  "map m_id (manga addedStore) = [''5x''] \<and>
   m_id (fst (addManga 5 ''x'' 5 5 5 (sampleData ''Two'') addedStore)) = ''5x'' \<and>
   map m_id (manga (snd (addManga 5 ''x'' 5 5 5 (sampleData ''Two'') addedStore))) = [''5x'', ''5x''] \<and>
   map m_title (manga (snd (addManga 5 ''x'' 5 5 5 (sampleData ''Two'') addedStore))) = [''One'', ''Two'']"
  by code_simp


subsection \<open>Ending a reading session\<close>

lemma mergeManga_progress:
  "mergeManga tUpdated m (progressUpdates tRead m n) = advance tRead tUpdated n m"
  by (simp add: mergeManga_def progressUpdates_def noUpdates_def spread_def advance_def)

lemma updateManga_readingSessions:
  "readingSessions (snd (updateManga now ident updates d)) = readingSessions d"
  by (simp add: updateManga_def Let_def split: option.splits)


lemma endReadingSession_bound:
  assumes s: "find (\<lambda>s. s_id s = sid) (readingSessions d) = Some session"
      and b: "s_mangaId session = Some mid" "mid \<noteq> []"
      and t: "getManga mid d = Some m"
      and n: "greaterThanZero n"
  shows "fst (endReadingSession tEnd tRead tUpdated sid n d) = Some (closeSession tEnd n session)"
    and "find (\<lambda>s. s_id s = sid)
           (readingSessions (snd (endReadingSession tEnd tRead tUpdated sid n d))) =
           Some (closeSession tEnd n session)"
    and "getManga mid (snd (endReadingSession tEnd tRead tUpdated sid n d)) =
           Some (advance tRead tUpdated n m)"
proof -
  let ?P = "\<lambda>s. s_id s = sid"
  from s obtain i where i: "findIndex ?P (readingSessions d) = Some i"
    and si: "readingSessions d ! i = session"
    by (auto simp: find_findIndex split: option.splits)
  let ?c = "closeSession tEnd n session"
  let ?d1 = "d\<lparr>readingSessions := (readingSessions d)[i := ?c]\<rparr>"
  have g1: "getManga mid ?d1 = Some m" using t by (simp add: getManga_def)
  from updateManga_found [OF g1] have mid: "m_id m = mid" by blast
  have keep: "u_id (progressUpdates tRead m n) = None \<or>
              u_id (progressUpdates tRead m n) = Some mid"
    by (simp add: progressUpdates_def noUpdates_def)
  let ?d2 = "snd (updateManga tUpdated mid (progressUpdates tRead m n) ?d1)"
  have e: "endReadingSession tEnd tRead tUpdated sid n d = (Some ?c, ?d2)"
    using i si b n g1 mid
    by (simp add: endReadingSession_def Let_def closeSession_def truthyStr_def)
  show "fst (endReadingSession tEnd tRead tUpdated sid n d) = Some ?c" by (simp add: e)
  have "?P ?c" using i si by (simp add: closeSession_def findIndex_Some_iff)
  from find_list_update [OF i, where y = ?c] this
  show "find ?P (readingSessions (snd (endReadingSession tEnd tRead tUpdated sid n d))) = Some ?c"
    by (simp add: e updateManga_readingSessions)
  from updateManga_getManga [OF g1 keep, of tUpdated]
  show "getManga mid (snd (endReadingSession tEnd tRead tUpdated sid n d)) =
          Some (advance tRead tUpdated n m)"
    by (simp add: e mergeManga_progress)
qed

lemma endReadingSession_returns:
  "find (\<lambda>s. s_id s = sid) (readingSessions d) = Some session \<Longrightarrow>
   fst (endReadingSession tEnd tRead tUpdated sid k d) = Some (closeSession tEnd k session)"
  by (auto simp: endReadingSession_def find_findIndex Let_def closeSession_def
           split: option.splits)

lemma endReadingSession_manga_unbound:
  assumes s: "find (\<lambda>s. s_id s = sid) (readingSessions d) = Some session"
      and b: "s_mangaId session = None \<or> s_mangaId session = Some []"
  shows "manga (snd (endReadingSession tEnd tRead tUpdated sid n d)) = manga d"
proof -
  from s obtain i where i: "findIndex (\<lambda>s. s_id s = sid) (readingSessions d) = Some i"
    and si: "readingSessions d ! i = session"
    by (auto simp: find_findIndex split: option.splits)
  from b show ?thesis
    by (auto simp: endReadingSession_def i si Let_def truthyStr_def)
qed
lemma twinSessionStore_sessions:
  "map s_id (readingSessions twinSessionStore) = [''7s'', ''7s''] \<and>
   map s_mangaId (readingSessions twinSessionStore) = [None, Some ''5x''] \<and>
   map s_active (readingSessions twinSessionStore) = [True, True]"
  by code_simp

lemma sessionStore_find:
  "find (\<lambda>s. s_id s = ''7s'') (readingSessions sessionStore) = Some startedSession"
  by code_simp


lemma sessionStore_manga: "getManga ''5x'' sessionStore = Some addedEntry"
  by code_simp

lemma bigStore_find:
  "find (\<lambda>s. s_id s = ''7s'') (readingSessions bigStore) = Some startedSession"
  by code_simp

lemma bigStore_manga: "getManga ''5x'' bigStore = Some bigEntry"
  by code_simp

lemma emptyIdStore_find:
  "find (\<lambda>s. s_id s = ''7s'') (readingSessions emptyIdStore) =
     Some (startedSession\<lparr>s_mangaId := Some ''''\<rparr>)"
  by code_simp

lemma emptyIdStore_manga: "manga emptyIdStore = [addedEntry\<lparr>m_id := '''', m_updatedAt := 6\<rparr>]"
  by code_simp






lemma endReadingSession_twice_bound:
  assumes s: "find (\<lambda>s. s_id s = sid) (readingSessions d) = Some session"
      and b: "s_mangaId session = Some mid" "mid \<noteq> []"
      and t: "getManga mid d = Some m"
      and n: "greaterThanZero n"
  shows "\<exists>d1 d2.
           endReadingSession tEnd1 tRead1 tUpd1 sid n d = (Some (closeSession tEnd1 n session), d1) \<and>
           endReadingSession tEnd2 tRead2 tUpd2 sid n d1 = (Some (closeSession tEnd2 n session), d2) \<and>
           getManga mid d2 = Some (advance tRead2 tUpd2 n (advance tRead1 tUpd1 n m))"
proof -
  let ?d1 = "snd (endReadingSession tEnd1 tRead1 tUpd1 sid n d)"
  let ?d2 = "snd (endReadingSession tEnd2 tRead2 tUpd2 sid n ?d1)"
  note r1 = endReadingSession_bound [OF s b t n, of tEnd1 tRead1 tUpd1]
  have b1: "s_mangaId (closeSession tEnd1 n session) = Some mid"
    using b by (simp add: closeSession_def)
  note r2 = endReadingSession_bound [OF r1(2) b1 b(2) r1(3) n, of tEnd2 tRead2 tUpd2]
  have c: "closeSession tEnd2 n (closeSession tEnd1 n session) = closeSession tEnd2 n session"
    by (simp add: closeSession_def)
  have e1: "endReadingSession tEnd1 tRead1 tUpd1 sid n d = (Some (closeSession tEnd1 n session), ?d1)"
    using r1(1) by (simp add: prod_eq_iff)
  have e2: "endReadingSession tEnd2 tRead2 tUpd2 sid n ?d1 = (Some (closeSession tEnd2 n session), ?d2)"
    using r2(1) by (simp add: prod_eq_iff c)
  from e1 e2 r2(3) show ?thesis by blast
qed


text \<open>
  C9 (as amended). \<open>endReadingSession\<close> does not look at the \<open>active\<close> flag: for any session
  found by its id, active or not, and any chapter count, the call returns the session
  stamped with the clock reading of the call. When the session's \<open>mangaId\<close> is a
  non-empty id that \<open>getManga\<close> finds, \<open>n > 0\<close>, and the entry's current chapter is an
  integer \<open>c\<close> above \<open>- 2 ^ 53\<close> with \<open>c + 2 * n\<close> below \<open>2 ^ 53\<close>, two calls in a row both
  succeed, the second stamps \<open>endTime\<close> again, and the entry's \<open>currentChapter\<close> ends at
  \<open>c + 2 * n\<close>.
\<close>

theorem endReadingSession_twice:
  assumes s: "find (\<lambda>s. s_id s = sid) (readingSessions d) = Some session"
  shows "fst (endReadingSession tEnd tRead tUpd sid k d) =
           Some (session\<lparr>s_endTime := Some tEnd, s_chaptersRead := k, s_active := False\<rparr>) \<and>
         (s_mangaId session = Some mid \<and> mid \<noteq> [] \<and> getManga mid d = Some m \<and> 0 < n \<and>
          m_currentChapter m = Num c \<and> - (2 ^ 53) < c \<and> c + 2 * n < 2 ^ 53 \<longrightarrow>
          (\<exists>d1 d2 m2.
             endReadingSession tEnd1 tRead1 tUpd1 sid (Num n) d =
               (Some (session\<lparr>s_endTime := Some tEnd1, s_chaptersRead := Num n,
                               s_active := False\<rparr>), d1) \<and>
             endReadingSession tEnd2 tRead2 tUpd2 sid (Num n) d1 =
               (Some (session\<lparr>s_endTime := Some tEnd2, s_chaptersRead := Num n,
                               s_active := False\<rparr>), d2) \<and>
             getManga mid d2 = Some m2 \<and>
             m_currentChapter m2 = Num (c + 2 * n)))"
proof (intro conjI impI)
  show "fst (endReadingSession tEnd tRead tUpd sid k d) =
           Some (session\<lparr>s_endTime := Some tEnd, s_chaptersRead := k, s_active := False\<rparr>)"
    using endReadingSession_returns [OF s, of tEnd tRead tUpd k] by (simp add: closeSession_def)
next
  assume a: "s_mangaId session = Some mid \<and> mid \<noteq> [] \<and> getManga mid d = Some m \<and> 0 < n \<and>
          m_currentChapter m = Num c \<and> - (2 ^ 53) < c \<and> c + 2 * n < 2 ^ 53"
  then have b: "s_mangaId session = Some mid" "mid \<noteq> []"
    and t: "getManga mid d = Some m" and n: "greaterThanZero (Num n)" and n0: "0 < n"
    and c: "m_currentChapter m = Num c" and lo: "- (2 ^ 53) < c" and hi: "c + 2 * n < 2 ^ 53"
    by simp_all
  from lo hi n0 have s1: "\<bar>c + n\<bar> < 2 ^ 53" and s2: "\<bar>(c + n) + n\<bar> < 2 ^ 53"
    by linarith+
  have "m_currentChapter (advance tRead2 tUpd2 (Num n) (advance tRead1 tUpd1 (Num n) m)) =
          Num (c + 2 * n)"
    by (simp add: advance_def c jsAdd_safe [OF s1] jsAdd_safe [OF s2])
  with endReadingSession_twice_bound [OF s b t n, of tEnd1 tRead1 tUpd1 tEnd2 tRead2 tUpd2]
  show "\<exists>d1 d2 m2.
             endReadingSession tEnd1 tRead1 tUpd1 sid (Num n) d =
               (Some (session\<lparr>s_endTime := Some tEnd1, s_chaptersRead := Num n,
                               s_active := False\<rparr>), d1) \<and>
             endReadingSession tEnd2 tRead2 tUpd2 sid (Num n) d1 =
               (Some (session\<lparr>s_endTime := Some tEnd2, s_chaptersRead := Num n,
                               s_active := False\<rparr>), d2) \<and>
             getManga mid d2 = Some m2 \<and>
             m_currentChapter m2 = Num (c + 2 * n)"
    unfolding closeSession_def by blast
qed

theorem endReadingSession_twice_witness:
  "fst (endReadingSession 8 9 10 ''7s'' (Num 0) sessionStore) =
     Some (startedSession\<lparr>s_endTime := Some 8, s_chaptersRead := Num 0, s_active := False\<rparr>) \<and>
   (\<exists>d1 d2 m2.
     endReadingSession 8 9 10 ''7s'' (Num 3) sessionStore =
       (Some (startedSession\<lparr>s_endTime := Some 8, s_chaptersRead := Num 3, s_active := False\<rparr>), d1) \<and>
     endReadingSession 11 12 13 ''7s'' (Num 3) d1 =
       (Some (startedSession\<lparr>s_endTime := Some 11, s_chaptersRead := Num 3, s_active := False\<rparr>), d2) \<and>
     getManga ''5x'' d2 = Some m2 \<and> m_currentChapter m2 = Num 6)"
proof -
  have mid: "s_mangaId startedSession = Some ''5x''" by (simp add: startedSession_def)
  have ne: "''5x'' \<noteq> []" by simp
  have pos: "(0::int) < 3" by simp
  have c: "m_currentChapter addedEntry = Num 0" by (simp add: addedEntry_def sampleManga_def)
  have lo: "- (2 ^ 53) < (0::int)" by simp
  have hi: "(0::int) + 2 * 3 < 2 ^ 53" by simp
  from endReadingSession_twice [OF sessionStore_find, of 8 9 10 "Num 0" "''5x''" addedEntry 3 0
      8 9 10 11 12 13]
    mid ne sessionStore_manga pos c lo hi
  show ?thesis by simp
qed


text \<open>
  C9 as stated fails in two ways. From a current chapter of \<open>2 ^ 53\<close> two calls with
  \<open>n = 1\<close> both succeed and leave the current chapter at \<open>2 ^ 53\<close>, since each addition
  is rounded to a double. Where the entry's id is the empty string the session's
  \<open>mangaId\<close> is falsy, and two calls with \<open>n = 3\<close> leave the current chapter at 0.
\<close>

theorem endReadingSession_twice_counterexample:
  "map_option m_currentChapter (getManga ''5x'' bigStore) = Some (Num 9007199254740992) \<and>
   (\<exists>d1 d2.
      endReadingSession 8 9 10 ''7s'' (Num 1) bigStore =
        (Some (startedSession\<lparr>s_endTime := Some 8, s_chaptersRead := Num 1, s_active := False\<rparr>), d1) \<and>
      endReadingSession 11 12 13 ''7s'' (Num 1) d1 =
        (Some (startedSession\<lparr>s_endTime := Some 11, s_chaptersRead := Num 1, s_active := False\<rparr>), d2) \<and>
      map_option m_currentChapter (getManga ''5x'' d2) = Some (Num 9007199254740992)) \<and>
   map m_id (manga emptyIdStore) = [''''] \<and>
   map s_mangaId (readingSessions emptyIdStore) = [Some ''''] \<and>
   map m_currentChapter
     (manga (snd (endReadingSession 11 12 13 ''7s'' (Num 3)
        (snd (endReadingSession 8 9 10 ''7s'' (Num 3) emptyIdStore))))) = [Num 0]"
proof -
  have mid: "s_mangaId startedSession = Some ''5x''" by (simp add: startedSession_def)
  have ne: "''5x'' \<noteq> []" by simp
  have pos: "greaterThanZero (Num 1)" by simp
  have big0: "map_option m_currentChapter (getManga ''5x'' bigStore) = Some (Num 9007199254740992)"
    by (simp add: bigStore_manga bigEntry_def)
  have adv: "m_currentChapter (advance 12 13 (Num 1) (advance 9 10 (Num 1) bigEntry)) =
      Num 9007199254740992"
    by (simp add: advance_def bigEntry_def jsAdd_two53)
  from endReadingSession_twice_bound [OF bigStore_find mid ne bigStore_manga pos,
      of 8 9 10 11 12 13] adv
  have big: "\<exists>d1 d2.
      endReadingSession 8 9 10 ''7s'' (Num 1) bigStore =
        (Some (startedSession\<lparr>s_endTime := Some 8, s_chaptersRead := Num 1, s_active := False\<rparr>), d1) \<and>
      endReadingSession 11 12 13 ''7s'' (Num 1) d1 =
        (Some (startedSession\<lparr>s_endTime := Some 11, s_chaptersRead := Num 1, s_active := False\<rparr>), d2) \<and>
      map_option m_currentChapter (getManga ''5x'' d2) = Some (Num 9007199254740992)"
    unfolding closeSession_def by auto
  have empty: "map m_id (manga emptyIdStore) = [''''] \<and>
   map s_mangaId (readingSessions emptyIdStore) = [Some ''''] \<and>
   map m_currentChapter
     (manga (snd (endReadingSession 11 12 13 ''7s'' (Num 3)
        (snd (endReadingSession 8 9 10 ''7s'' (Num 3) emptyIdStore))))) = [Num 0]"
    by code_simp
  from big0 big empty show ?thesis by (intro conjI) simp_all
qed

subsection \<open>Active sessions\<close>

lemma filter_update_le:
  "\<not> P y \<Longrightarrow> length (filter P (xs[i := y])) \<le> length (filter P xs)"
proof (induction xs arbitrary: i)
  case Nil
  show ?case by simp
next
  case (Cons x xs)
  show ?case
  proof (cases i)
    case 0
    with Cons.prems show ?thesis by simp
  next
    case (Suc k)
    with Cons.IH [OF Cons.prems, of k] show ?thesis by simp
  qed
qed

lemma endReadingSession_readingSessions:
  "readingSessions (snd (endReadingSession tEnd tRead tUpdated sid n d)) = readingSessions d \<or>
   (\<exists>i c. \<not> s_active c \<and>
      readingSessions (snd (endReadingSession tEnd tRead tUpdated sid n d)) = (readingSessions d)[i := c])"
proof (cases "findIndex (\<lambda>s. s_id s = sid) (readingSessions d)")
  case None
  then show ?thesis by (simp add: endReadingSession_def)
next
  case (Some i)
  let ?c = "closeSession tEnd n (readingSessions d ! i)"
  have "readingSessions (snd (endReadingSession tEnd tRead tUpdated sid n d)) = (readingSessions d)[i := ?c]"
    by (simp add: endReadingSession_def Some Let_def closeSession_def
          updateManga_readingSessions split: option.splits)
  moreover have "\<not> s_active ?c" by (simp add: closeSession_def)
  ultimately show ?thesis by blast
qed

lemma perform_other_active:
  "\<not> isStart x \<Longrightarrow> length (activeSessions (perform x d)) \<le> length (activeSessions d)"
proof (cases x)
  case (EndReadingSession tEnd tRead tUpdated sid n)
  from endReadingSession_readingSessions [of tEnd tRead tUpdated sid n d] show ?thesis
    by (auto simp: EndReadingSession activeSessions_def filter_update_le)
next
  case (StartReadingSession tId rnd tStart mangaId)
  assume "\<not> isStart x"
  with StartReadingSession show ?thesis by simp
qed (simp_all add: activeSessions_def addManga_def updateManga_readingSessions deleteManga_def
       addBookmark_def removeBookmark_def addToHistory_def Let_def split: option.splits)

lemma perform_start_active:
  "isStart x \<Longrightarrow> length (activeSessions (perform x d)) = Suc (length (activeSessions d))"
  by (cases x) (simp_all add: activeSessions_def startReadingSession_def Let_def)

lemma getActiveSession_None: "(getActiveSession d = None) = (activeSessions d = [])"
  by (auto simp: getActiveSession_def activeSessions_def find_None_iff filter_empty_conv)

lemma guarded_run_active:
  "length (activeSessions d) \<le> 1 \<Longrightarrow> guarded xs d \<Longrightarrow>
   length (activeSessions (performAll xs d)) \<le> 1"
proof (induction xs arbitrary: d)
  case Nil
  then show ?case by simp
next
  case (Cons x xs)
  have "length (activeSessions (perform x d)) \<le> 1"
  proof (cases "isStart x")
    case True
    with Cons.prems(2) have "activeSessions d = []"
      by (simp add: getActiveSession_None)
    with perform_start_active [OF True, of d] show ?thesis by simp
  next
    case False
    from perform_other_active [OF False, of d] Cons.prems(1) show ?thesis by simp
  qed
  moreover from Cons.prems(2) have "guarded xs (perform x d)" by simp
  ultimately show ?case using Cons.IH by simp
qed


text \<open>
  C1 (as amended). No operation of the store but \<open>startReadingSession\<close> adds an active
  session, and \<open>startReadingSession\<close> always adds one, whether or not a session is active.
  So from a store with at most one active session, and from the initial store in
  particular, every run in which \<open>startReadingSession\<close> is called only while
  \<open>getActiveSession\<close> finds nothing ends with at most one active session.
\<close>

theorem guarded_single_active_session:
  "(\<not> isStart x \<longrightarrow> length (activeSessions (perform x d)) \<le> length (activeSessions d)) \<and>
   (isStart x \<longrightarrow> length (activeSessions (perform x d)) = Suc (length (activeSessions d))) \<and>
   (length (activeSessions d) \<le> 1 \<and> guarded xs d \<longrightarrow>
      length (activeSessions (performAll xs d)) \<le> 1) \<and>
   (guarded xs initialData \<longrightarrow> length (activeSessions (performAll xs initialData)) \<le> 1)"
proof -
  have "length (activeSessions initialData) \<le> 1"
    by (simp add: activeSessions_def initialData_def)
  then show ?thesis
    using perform_other_active [of x d] perform_start_active [of x d]
      guarded_run_active [of d xs] guarded_run_active [of initialData xs]
    by blast
qed

theorem guarded_single_active_session_witness:
  "guarded timerRun initialData \<and>
   length (activeSessions (performAll timerRun initialData)) \<le> 1 \<and>
   length (activeSessions (perform (StartReadingSession 9 ''t'' 9 None) sessionStore)) =
     Suc (length (activeSessions sessionStore)) \<and>
   length (activeSessions (perform (EndReadingSession 8 8 8 ''7s'' (Num 3)) sessionStore)) \<le>
     length (activeSessions sessionStore)"
proof -
  have g: "guarded timerRun initialData" by code_simp
  have s: "isStart (StartReadingSession 9 ''t'' 9 None)" by simp
  have e: "\<not> isStart (EndReadingSession 8 8 8 ''7s'' (Num 3))" by simp
  from guarded_single_active_session [of "StartReadingSession 9 ''t'' 9 None" sessionStore timerRun] g s
  have a: "length (activeSessions (performAll timerRun initialData)) \<le> 1"
    and b: "length (activeSessions (perform (StartReadingSession 9 ''t'' 9 None) sessionStore)) =
     Suc (length (activeSessions sessionStore))"
    by blast+
  from guarded_single_active_session [of "EndReadingSession 8 8 8 ''7s'' (Num 3)" sessionStore timerRun] e
  have c: "length (activeSessions (perform (EndReadingSession 8 8 8 ''7s'' (Num 3)) sessionStore)) \<le>
     length (activeSessions sessionStore)"
    by blast
  from g a b c show ?thesis by (intro conjI)
qed


text \<open>
  C1 as stated fails for the store on its own: \<open>startReadingSession\<close> has no check, and
  two calls in a row from the initial store leave two active sessions.
\<close>

theorem single_active_session_counterexample:
  "length (activeSessions (performAll twoStarts initialData)) = 2"
  by code_simp


subsection \<open>Generated ids are not empty\<close>

text \<open>
  An id made by \<open>generateId\<close> is never the empty string, so a session bound to an entry
  the store created has a truthy \<open>mangaId\<close>.
\<close>

lemma digits36_nonempty: "digits36 n \<noteq> []"
  by (induction n rule: digits36.induct) (subst digits36.simps, simp)

lemma generateId_nonempty: "generateId now rnd \<noteq> []"
  by (simp add: generateId_def toString36_def digits36_nonempty)


subsection \<open>Search\<close>












subsection \<open>Statistics\<close>

lemma addSessionTime_exact:
  assumes "\<bar>acc\<bar> + \<bar>sessionTime session\<bar> < 2 ^ 53"
  shows "addSessionTime (of_int acc) session = of_int (acc + sessionTime session)"
proof (cases "s_endTime session")
  case None
  then show ?thesis by (simp add: addSessionTime_def sessionTime_def)
next
  case (Some endTime)
  define t where "t = endTime - s_startTime session"
  have st: "sessionTime session = t" by (simp add: sessionTime_def Some t_def)
  from assms st have b1: "\<bar>t\<bar> < 2 ^ 53" and b2: "\<bar>acc + t\<bar> < 2 ^ 53" by linarith+
  have "fl (of_int endTime - of_int (s_startTime session)) = fl (of_int t)"
    by (simp add: t_def)
  also have "\<dots> = of_int t" using b1 by (rule fl_of_int)
  finally have d: "fl (of_int endTime - of_int (s_startTime session)) = of_int t" .
  have "addSessionTime (of_int acc) session = fl (of_int acc + of_int t)"
    by (simp only: addSessionTime_def Some option.case d)
  also have "\<dots> = fl (of_int (acc + t))" by simp
  also have "\<dots> = of_int (acc + t)" using b2 by (rule fl_of_int)
  finally show ?thesis by (simp only: st)
qed

lemma foldl_addSessionTime:
  "\<bar>acc\<bar> + sum_list (map (\<lambda>s. \<bar>sessionTime s\<bar>) sessions) < 2 ^ 53 \<Longrightarrow>
   foldl addSessionTime (of_int acc) sessions =
     of_int (acc + sum_list (map sessionTime sessions))"
proof (induction sessions arbitrary: acc)
  case Nil
  show ?case by simp
next
  case (Cons s sessions)
  have nn: "0 \<le> sum_list (map (\<lambda>s. \<bar>sessionTime s\<bar>) sessions)"
    by (rule sum_list_nonneg) auto
  from Cons.prems have p: "\<bar>acc\<bar> + \<bar>sessionTime s\<bar> +
      sum_list (map (\<lambda>s. \<bar>sessionTime s\<bar>) sessions) < 2 ^ 53"
    by simp
  from p nn have a: "\<bar>acc\<bar> + \<bar>sessionTime s\<bar> < 2 ^ 53" by linarith
  from p have b: "\<bar>acc + sessionTime s\<bar> +
      sum_list (map (\<lambda>s. \<bar>sessionTime s\<bar>) sessions) < 2 ^ 53"
    by linarith
  have "foldl addSessionTime (of_int acc) (s # sessions) =
          foldl addSessionTime (of_int (acc + sessionTime s)) sessions"
    by (simp only: foldl_Cons addSessionTime_exact [OF a])
  also have "\<dots> = of_int (acc + sessionTime s + sum_list (map sessionTime sessions))"
    by (rule Cons.IH [OF b])
  finally show ?case by (simp add: add.assoc)
qed

lemma abs_sum_list_le:
  "\<bar>sum_list (map f xs)\<bar> \<le> sum_list (map (\<lambda>x. \<bar>f x\<bar>) xs)" for f :: "'a \<Rightarrow> int"
proof (induction xs)
  case Nil
  show ?case by simp
next
  case (Cons x xs)
  then show ?case by simp
qed

lemma calculateAverageSessionTime_eq:
  assumes ne: "sessions \<noteq> []"
    and le: "sum_list (map (\<lambda>s. \<bar>sessionTime s\<bar>) sessions) \<le> 2 ^ 51"
  shows "calculateAverageSessionTime sessions = \<lfloor>exactAverageMinutes sessions + 1 / 2\<rfloor>"
proof -
  define t where "t = sum_list (map sessionTime sessions)"
  define n where "n = length sessions"
  from ne have n: "0 < n" by (simp add: n_def)
  have "\<bar>t\<bar> \<le> sum_list (map (\<lambda>s. \<bar>sessionTime s\<bar>) sessions)"
    unfolding t_def by (rule abs_sum_list_le)
  with le have t: "\<bar>t\<bar> \<le> 2 ^ 51" by linarith
  have "(2::int) ^ 51 < 2 ^ 53" by simp
  with le have "\<bar>0::int\<bar> + sum_list (map (\<lambda>s. \<bar>sessionTime s\<bar>) sessions) < 2 ^ 53"
    by simp
  from foldl_addSessionTime [OF this]
  have f: "foldl addSessionTime 0 sessions = of_int t" by (simp add: t_def)
  have "calculateAverageSessionTime sessions = \<lfloor>avgDouble (of_int t) n + 1 / 2\<rfloor>"
    using n by (simp add: calculateAverageSessionTime_def Let_def f avgDouble_def
        mathRound_def n_def)
  also have "\<dots> = \<lfloor>(of_int t / (of_nat n * 60000) + 1 / 2 :: rat)\<rfloor>"
    using n t by (rule avgDouble_round)
  also have "(of_int t / (of_nat n * 60000) :: rat) = exactAverageMinutes sessions"
    by (simp add: exactAverageMinutes_def t_def n_def)
  finally show ?thesis .
qed

lemma getStatistics_empty:
  "manga d = [] \<Longrightarrow> readingSessions d = [] \<Longrightarrow>
   getStatistics cal tDay tWeek tMonth d = zeroStatistics"
  by (simp add: getStatistics_def zeroStatistics_def countStatus_def
        calculateAverageSessionTime_def getDailyProgress_def getWeeklyProgress_def
        getMonthlyProgress_def sumChaptersRead_def Let_def)

lemma ninetySeconds_time: "sum_list (map (\<lambda>s. \<bar>sessionTime s\<bar>) [ninetySeconds]) = 90000"
  by (simp add: ninetySeconds_def sessionTime_def)

lemma ninetySeconds_exact: "exactAverageMinutes [ninetySeconds] = 3 / 2"
  by (simp add: exactAverageMinutes_def ninetySeconds_def sessionTime_def)

lemma longSession_exact:
  "exactAverageMinutes [longSession] = 17279940000029999 / 60000"
  by (simp add: exactAverageMinutes_def longSession_def sessionTime_def)

lemma fl_longSession: "fl 17279940000029999 = 17279940000030000"
proof -
  have o: "odd (8639970000014999 :: int)" by simp
  have "fl 17279940000029999 =
          of_int (roundHalfEven (17279940000029999 / 2 powi (53 - 52))) * 2 powi (53 - 52)"
    by (rule fl_eval) (simp_all add: power_int_def)
  also have "(17279940000029999 / 2 powi (53 - 52) :: rat) = of_int 8639970000014999 + 1 / 2"
    by (simp add: power_int_def)
  also have "roundHalfEven (of_int 8639970000014999 + 1 / 2) = 8639970000014999 + 1"
    using o by (rule roundHalfEven_tie_odd)
  finally show ?thesis by (simp add: power_int_def)
qed

lemma longSession_total: "foldl addSessionTime 0 [longSession] = 17279940000030000"
proof -
  have "fl (of_int 8639970000015000 * 2 ^ 1) = of_int 8639970000015000 * 2 ^ 1"
    by (rule fl_scaled) simp
  then have e: "fl 17279940000030000 = 17279940000030000" by simp
  show ?thesis
    by (simp add: addSessionTime_def longSession_def fl_longSession e)
qed

lemma longSession_average: "calculateAverageSessionTime [longSession] = 287999000001"
proof -
  have "fl (of_int 8639970000015000 * 2 ^ 1) = of_int 8639970000015000 * 2 ^ 1"
    by (rule fl_scaled) simp
  then have e1: "fl 17279940000030000 = 17279940000030000" by simp
  have "fl (of_int 17279940000030) = of_int 17279940000030"
    by (rule fl_of_int) simp
  then have e2: "fl 17279940000030 = 17279940000030" by simp
  have "fl (of_int 575998000001 / 2 ^ 1) = of_int 575998000001 / 2 ^ 1"
    by (rule fl_dyadic) simp
  then have e3: "fl (575998000001 / 2) = 575998000001 / 2" by simp
  have d2: "(17279940000030000 / 1000 :: rat) = 17279940000030" by simp
  have d3: "(17279940000030 / 60 :: rat) = 575998000001 / 2" by simp
  have "calculateAverageSessionTime [longSession] =
          mathRound (fl (fl (fl (17279940000030000 / 1) / 1000) / 60))"
    unfolding calculateAverageSessionTime_def Let_def longSession_total by simp
  also have "\<dots> = mathRound (575998000001 / 2)"
    by (simp only: div_by_1 e1 d2 e2 d3 e3)
  also have "\<dots> = 287999000001" by (simp add: mathRound_def)
  finally show ?thesis .
qed

text \<open>
  C6 (as amended). On a store with no manga entries and no sessions \<open>getStatistics\<close>
  returns zero for every count, and \<open>calculateAverageSessionTime\<close> returns 0 for an empty
  list without dividing. The \<open>averageSessionTime\<close> of the statistics is computed from the
  sessions that are not active. For a non-empty list whose session times add up, in
  absolute value, to at most \<open>2 ^ 51\<close> milliseconds, it is the sum of \<open>end - start\<close> over
  the sessions that have an end time, divided by the number of sessions and by 60000,
  rounded to the nearest whole number of minutes (a half rounds up), so it lies within
  half a minute of the exact quotient: the roundings of the double arithmetic do not
  change the result there.
\<close>

theorem getStatistics_average:
  "(manga d = [] \<and> readingSessions d = [] \<longrightarrow>
      getStatistics cal tDay tWeek tMonth d = zeroStatistics) \<and>
   calculateAverageSessionTime [] = 0 \<and>
   averageSessionTime (getStatistics cal tDay tWeek tMonth d) =
     calculateAverageSessionTime (filter (\<lambda>s. \<not> s_active s) (readingSessions d)) \<and>
   (sessions \<noteq> [] \<and> sum_list (map (\<lambda>s. \<bar>sessionTime s\<bar>) sessions) \<le> 2 ^ 51 \<longrightarrow>
      calculateAverageSessionTime sessions = \<lfloor>exactAverageMinutes sessions + 1 / 2\<rfloor> \<and>
      exactAverageMinutes sessions - 1 / 2 < of_int (calculateAverageSessionTime sessions) \<and>
      of_int (calculateAverageSessionTime sessions) \<le> exactAverageMinutes sessions + 1 / 2)"
proof -
  have z: "calculateAverageSessionTime [] = 0"
    by (simp add: calculateAverageSessionTime_def)
  have a: "averageSessionTime (getStatistics cal tDay tWeek tMonth d) =
     calculateAverageSessionTime (filter (\<lambda>s. \<not> s_active s) (readingSessions d))"
    by (simp add: getStatistics_def Let_def)
  have r: "calculateAverageSessionTime sessions = \<lfloor>exactAverageMinutes sessions + 1 / 2\<rfloor> \<and>
      exactAverageMinutes sessions - 1 / 2 < of_int (calculateAverageSessionTime sessions) \<and>
      of_int (calculateAverageSessionTime sessions) \<le> exactAverageMinutes sessions + 1 / 2"
    if "sessions \<noteq> []" and "sum_list (map (\<lambda>s. \<bar>sessionTime s\<bar>) sessions) \<le> 2 ^ 51"
  proof -
    note e = calculateAverageSessionTime_eq [OF that]
    have "exactAverageMinutes sessions + 1 / 2 < of_int \<lfloor>exactAverageMinutes sessions + 1 / 2\<rfloor> + 1"
      by linarith
    moreover have "of_int \<lfloor>exactAverageMinutes sessions + 1 / 2\<rfloor> \<le> exactAverageMinutes sessions + 1 / 2"
      by (rule of_int_floor_le)
    ultimately show ?thesis unfolding e by simp
  qed
  from z a r getStatistics_empty [of d cal tDay tWeek tMonth] show ?thesis by blast
qed

theorem getStatistics_average_witness:
  "getStatistics sampleCalendar 1000 1001 1002 initialData = zeroStatistics \<and>
   calculateAverageSessionTime [ninetySeconds] = \<lfloor>exactAverageMinutes [ninetySeconds] + 1 / 2\<rfloor> \<and>
   calculateAverageSessionTime [ninetySeconds] = 2"
proof -
  have m: "manga initialData = [] \<and> readingSessions initialData = []"
    by (simp add: initialData_def)
  have ne: "[ninetySeconds] \<noteq> []" by simp
  have le: "sum_list (map (\<lambda>s. \<bar>sessionTime s\<bar>) [ninetySeconds]) \<le> 2 ^ 51"
    unfolding ninetySeconds_time by simp
  from getStatistics_average [of initialData sampleCalendar 1000 1001 1002 "[ninetySeconds]"]
    m ne le
  have "getStatistics sampleCalendar 1000 1001 1002 initialData = zeroStatistics"
    and e: "calculateAverageSessionTime [ninetySeconds] = \<lfloor>exactAverageMinutes [ninetySeconds] + 1 / 2\<rfloor>"
    by blast+
  moreover from e have "calculateAverageSessionTime [ninetySeconds] = 2"
    unfolding ninetySeconds_exact by simp
  ultimately show ?thesis by simp
qed

text \<open>
  C6 as stated fails where the quotient is not a whole number: one closed session of 90
  seconds averages 3/2 minutes, and \<open>calculateAverageSessionTime\<close> returns 2. Beyond
  \<open>2 ^ 53\<close> milliseconds the difference \<open>end - start\<close> is itself rounded: for the session
  from -8640000000000000 to 8639940000029999 the exact quotient rounds to 287999000000
  minutes and \<open>calculateAverageSessionTime\<close> returns 287999000001.
\<close>

theorem averageSessionTime_counterexample:
  "exactAverageMinutes [ninetySeconds] = 3 / 2 \<and>
   calculateAverageSessionTime [ninetySeconds] = 2 \<and>
   of_int (calculateAverageSessionTime [ninetySeconds]) \<noteq> exactAverageMinutes [ninetySeconds] \<and>
   exactAverageMinutes [longSession] = 17279940000029999 / 60000 \<and>
   \<lfloor>exactAverageMinutes [longSession] + 1 / 2\<rfloor> = 287999000000 \<and>
   calculateAverageSessionTime [longSession] = 287999000001"
proof -
  have ne: "[ninetySeconds] \<noteq> []" by simp
  have le: "sum_list (map (\<lambda>s. \<bar>sessionTime s\<bar>) [ninetySeconds]) \<le> 2 ^ 51"
    unfolding ninetySeconds_time by simp
  have "calculateAverageSessionTime [ninetySeconds] = \<lfloor>exactAverageMinutes [ninetySeconds] + 1 / 2\<rfloor>"
    using ne le by (rule calculateAverageSessionTime_eq)
  then have c: "calculateAverageSessionTime [ninetySeconds] = 2"
    unfolding ninetySeconds_exact by simp
  have n: "of_int (calculateAverageSessionTime [ninetySeconds]) \<noteq> exactAverageMinutes [ninetySeconds]"
    unfolding c ninetySeconds_exact by simp
  have f: "\<lfloor>exactAverageMinutes [longSession] + 1 / 2\<rfloor> = 287999000000"
    unfolding longSession_exact by (simp add: floor_eq_iff)
  from ninetySeconds_exact c n longSession_exact f longSession_average
  show ?thesis by (intro conjI)
qed

end
